theory Spec2Isabelle
  imports Complex_Main "HOL-Library.Signed_Division"
begin

section \<open>Conventions of the embedding\<close>

text \<open>
  The development embeds \<^verbatim>\<open>src/core/terrain.c\<close> (with \<^verbatim>\<open>cos_interp\<close> and
  \<^verbatim>\<open>barrycentric\<close> of \<^verbatim>\<open>src/core/model.h\<close>).

  \<^item> C \<^verbatim>\<open>int\<close> values are \<open>int\<close>, array indices and \<^verbatim>\<open>unsigned\<close> values are \<open>nat\<close>;
    overflow of 32-bit arithmetic is not modelled except where it is written out.
    Signed division truncates towards zero (\<open>sdiv\<close>); a zero divisor is an error value.
  \<^item> An \<^verbatim>\<open>unsigned char\<close> array is a \<open>nat list\<close>; a store keeps the low eight bits.
  \<^item> \<^verbatim>\<open>float\<close> and \<^verbatim>\<open>double\<close> values are \<open>real\<close>. In the height queries
    (\<^verbatim>\<open>terrain_height\<close>, \<^verbatim>\<open>barrycentric\<close>) and in the construction of the partition
    (\<^verbatim>\<open>bsp_part_one\<close>, \<^verbatim>\<open>terrain_bsp_cb\<close>) every operation rounds its exact result to the
    format of its C type (\<open>fl32\<close>, \<open>fl64\<close>), to nearest with ties to even, one operation
    at a time. The height synthesis (the seed heights, their sums and products, \<^verbatim>\<open>cosf\<close>,
    \<^verbatim>\<open>powf\<close>) and the point location in the partition (the ellipse test, the fractions
    and the blend) are idealised: their operations are exact.
  \<^item> Mutation of an array is explicit: the function returns the new array.
\<close>

section \<open>Floating point\<close>

text \<open>
  A binary format has \<open>p\<close> significant bits and exponents from \<open>emin\<close> to \<open>emax\<close>.
  \<open>exp_search\<close> finds the exponent of a magnitude, going up from \<open>emin\<close> (the exponent of
  the subnormal numbers) as long as the next power of two is not above the magnitude.
  \<open>rne\<close> rounds to the nearest integer, a tie to the even one. \<open>fl_round\<close> rounds to the
  nearest multiple of the unit in the last place of the exponent found. Infinities are
  not modelled: a magnitude beyond the largest number is rounded with the exponent \<open>emax\<close>.
\<close>

primrec exp_search :: "nat \<Rightarrow> int \<Rightarrow> real \<Rightarrow> int" where
  "exp_search 0 e a = e"
| "exp_search (Suc k) e a = (if 2 powi (e + 1) \<le> a then exp_search k (e + 1) a else e)"

definition fl_exp :: "int \<Rightarrow> int \<Rightarrow> real \<Rightarrow> int" where
  "fl_exp emin emax x = exp_search (nat (emax - emin)) emin \<bar>x\<bar>"

definition rne :: "real \<Rightarrow> int" where
  "rne y =
     (let f = \<lfloor>y\<rfloor> in
      if y - of_int f < 1 / 2 then f
      else if 1 / 2 < y - of_int f then f + 1
      else if even f then f else f + 1)"

definition fl_round :: "nat \<Rightarrow> int \<Rightarrow> int \<Rightarrow> real \<Rightarrow> real" where
  "fl_round p emin emax x =
     (let u = 2 powi (fl_exp emin emax x - int p + 1) in of_int (rne (x / u)) * u)"

text \<open>\<^verbatim>\<open>float\<close> and \<^verbatim>\<open>double\<close>, and the four operations on \<^verbatim>\<open>float\<close>.\<close>

definition fl32 :: "real \<Rightarrow> real" where "fl32 = fl_round 24 (- 126) 127"

definition fl64 :: "real \<Rightarrow> real" where "fl64 = fl_round 53 (- 1022) 1023"

definition f32_add :: "real \<Rightarrow> real \<Rightarrow> real" where "f32_add a b = fl32 (a + b)"

definition f32_sub :: "real \<Rightarrow> real \<Rightarrow> real" where "f32_sub a b = fl32 (a - b)"

definition f32_mul :: "real \<Rightarrow> real \<Rightarrow> real" where "f32_mul a b = fl32 (a * b)"

definition f32_div :: "real \<Rightarrow> real \<Rightarrow> real" where "f32_div a b = fl32 (a / b)"

section \<open>Cellular automaton\<close>

text \<open>
  \<^verbatim>\<open>xyarray_get\<close>: the first test returns 0 for every coordinate outside the grid, so the
  wrap of \<open>x\<close> that follows it in the source is never taken; it is kept here as written.
\<close>

definition xyarray_get :: "nat list \<Rightarrow> int \<Rightarrow> int \<Rightarrow> int \<Rightarrow> nat" where
  "xyarray_get arr width x y =
     (if x < 0 \<or> y < 0 \<or> x \<ge> width \<or> y \<ge> width then 0
      else let x' = (if x < 0 then width - 1 else if x \<ge> width then 0 else x)
           in arr ! nat (y * width + x'))"

text \<open>\<^verbatim>\<open>xyarray_set\<close> wraps \<open>x\<close> by one step and stores the low byte of \<open>v\<close>.\<close>

definition xyarray_set :: "nat list \<Rightarrow> int \<Rightarrow> int \<Rightarrow> int \<Rightarrow> nat \<Rightarrow> nat list" where
  "xyarray_set arr width x y v =
     (let x' = (if x < 0 then width - 1 else if x \<ge> width then 0 else x)
      in arr[nat (y * width + x') := v mod 256])"

text \<open>The C idiom \<^verbatim>\<open>!!v\<close> and the value of a comparison, as an \<^verbatim>\<open>int\<close>.\<close>

definition notnot :: "nat \<Rightarrow> int" where
  "notnot v = (if v \<noteq> 0 then 1 else 0)"

definition c_bool :: "bool \<Rightarrow> int" where
  "c_bool b = (if b then 1 else 0)"

definition neigh_vn1 :: "nat list \<Rightarrow> int \<Rightarrow> int \<Rightarrow> int \<Rightarrow> int" where
  "neigh_vn1 arr side x y =
     notnot (xyarray_get arr side (x + 1) y) +
     notnot (xyarray_get arr side (x - 1) y) +
     notnot (xyarray_get arr side x (y + 1)) +
     notnot (xyarray_get arr side x (y - 1))"

definition neigh_m1 :: "nat list \<Rightarrow> int \<Rightarrow> int \<Rightarrow> int \<Rightarrow> int" where
  "neigh_m1 arr side x y =
     neigh_vn1 arr side x y +
     notnot (xyarray_get arr side (x + 1) (y + 1)) +
     notnot (xyarray_get arr side (x - 1) (y + 1)) +
     notnot (xyarray_get arr side (x + 1) (y - 1)) +
     notnot (xyarray_get arr side (x - 1) (y - 1))"

definition neigh_vnv :: "nat list \<Rightarrow> int \<Rightarrow> int \<Rightarrow> int \<Rightarrow> int" where
  "neigh_vnv arr side x y =
     (let v = xyarray_get arr side x y in
      c_bool (xyarray_get arr side (x + 1) y > v) +
      c_bool (xyarray_get arr side (x - 1) y > v) +
      c_bool (xyarray_get arr side x (y + 1) > v) +
      c_bool (xyarray_get arr side x (y - 1) > v))"

definition neigh_mv :: "nat list \<Rightarrow> int \<Rightarrow> int \<Rightarrow> int \<Rightarrow> int" where
  "neigh_mv arr side x y =
     (let n = neigh_vnv arr side x y; v = xyarray_get arr side x y in
      n +
      c_bool (xyarray_get arr side (x + 1) (y + 1) > v) +
      c_bool (xyarray_get arr side (x - 1) (y + 1) > v) +
      c_bool (xyarray_get arr side (x + 1) (y - 1) > v) +
      c_bool (xyarray_get arr side (x - 1) (y - 1) > v))"

record cell_automaton =
  name :: string
  born :: nat
  surv :: nat
  nr_states :: nat
  decay :: bool
  neigh :: "nat list \<Rightarrow> int \<Rightarrow> int \<Rightarrow> int \<Rightarrow> int"

text \<open>The test \<^verbatim>\<open>mask & (1 << n)\<close>.\<close>

definition mask_bit :: "nat \<Rightarrow> int \<Rightarrow> bool" where
  "mask_bit m n = (and m (push_bit (nat n) 1) \<noteq> 0)"

text \<open>The body of the two loops of \<^verbatim>\<open>cell_aut_step\<close>, for the cell \<open>(i, j)\<close>.\<close>

definition cell_aut_cell :: "cell_automaton \<Rightarrow> int \<Rightarrow> nat list \<Rightarrow> int \<Rightarrow> int \<Rightarrow> nat list" where
  "cell_aut_cell ca side arr i j =
     (let n = neigh ca arr side i j;
          v = xyarray_get arr side i j
      in if v = 0 \<and> mask_bit (born ca) n then xyarray_set arr side i j (nr_states ca)
         else if v \<noteq> 0 \<and> mask_bit (surv ca) n then arr
         else if v \<noteq> 0 \<and> decay ca then xyarray_set arr side i j (v - 1)
         else arr)"

text \<open>
  The cells in the order the loops visit them: \<open>i\<close> in the outer loop, \<open>j\<close> in the inner
  one. \<^verbatim>\<open>cell_aut_step\<close> runs the body over them on the one array.
\<close>

definition cell_order :: "int \<Rightarrow> (nat \<times> nat) list" where
  "cell_order side = List.product [0..<nat side] [0..<nat side]"

definition cell_aut_run :: "cell_automaton \<Rightarrow> int \<Rightarrow> (nat \<times> nat) list \<Rightarrow> nat list \<Rightarrow> nat list" where
  "cell_aut_run ca side cs arr =
     fold (\<lambda>(i, j) a. cell_aut_cell ca side a (int i) (int j)) cs arr"

definition cell_aut_step :: "cell_automaton \<Rightarrow> nat list \<Rightarrow> int \<Rightarrow> nat list" where
  "cell_aut_step ca arr side = cell_aut_run ca side (cell_order side) arr"

text \<open>The rules of the source: \<^verbatim>\<open>ca_test\<close> carves the maze, \<^verbatim>\<open>ca_instors\<close> place content.\<close>

definition ca_test :: cell_automaton where
  "ca_test = \<lparr> name = ''test'', born = push_bit 2 3, surv = push_bit 7 3, nr_states = 4,
               decay = True, neigh = neigh_m1 \<rparr>"

definition ca_instors :: "cell_automaton list" where
  "ca_instors =
     [\<lparr> name = ''cool tree'', born = 0x3f, surv = 0xff, nr_states = 20,
        decay = False, neigh = neigh_mv \<rparr>,
      \<lparr> name = ''ash pinus'', born = 0xff, surv = 0xff, nr_states = 21,
        decay = False, neigh = neigh_mv \<rparr>]"

text \<open>
  The step as the specification words it: every cell of the result is the transition rule
  applied to the grid as it was before the step. Cell \<open>(i, j)\<close> lives at index
  \<open>j * side + i\<close>.
\<close>

definition cell_aut_step_sync :: "cell_automaton \<Rightarrow> nat list \<Rightarrow> int \<Rightarrow> nat list" where
  "cell_aut_step_sync ca arr side =
     map (\<lambda>k. cell_aut_cell ca side arr (int (k mod nat side)) (int (k div nat side)) ! k)
       [0..<nat side * nat side]"

text \<open>
  The array at the moment the loops of \<^verbatim>\<open>cell_aut_step\<close> reach the cell \<open>(i, j)\<close>: the body
  has run over the \<open>i * side + j\<close> cells visited before it.
\<close>

definition cell_aut_upto :: "cell_automaton \<Rightarrow> int \<Rightarrow> nat list \<Rightarrow> nat \<Rightarrow> nat \<Rightarrow> nat list" where
  "cell_aut_upto ca side arr i j =
     cell_aut_run ca side (take (i * nat side + j) (cell_order side)) arr"

section \<open>Errors, and the helpers that are not part of the sources\<close>

text \<open>
  A division of integers by zero and a read past the end of an array are undefined in C;
  the model returns them as error values.
\<close>

datatype error = DivByZero | OutOfBounds

text \<open>
  Modelled from the spec: the macros \<^verbatim>\<open>min\<close> and \<^verbatim>\<open>max\<close> and the function \<^verbatim>\<open>clampd\<close> come
  from \<^verbatim>\<open>util.h\<close>, which is not among the sources. The specification has the split
  fraction ``clamped to [0.2, 0.8]''; \<^verbatim>\<open>min\<close> and \<^verbatim>\<open>max\<close> are taken with their usual
  meaning, on values converted to \<^verbatim>\<open>double\<close>.
\<close>

definition clampd :: "real \<Rightarrow> real \<Rightarrow> real \<Rightarrow> real" where
  "clampd v lo hi = (if v < lo then lo else if v > hi then hi else v)"

definition c_min :: "real \<Rightarrow> real \<Rightarrow> real" where
  "c_min a b = (if a < b then a else b)"

definition c_max :: "real \<Rightarrow> real \<Rightarrow> real" where
  "c_max a b = (if a > b then a else b)"

text \<open>The conversion of a \<^verbatim>\<open>double\<close> to \<^verbatim>\<open>int\<close> drops the fraction.\<close>

definition c_trunc :: "real \<Rightarrow> int" where
  "c_trunc r = (if r < 0 then \<lceil>r\<rceil> else \<lfloor>r\<rfloor>)"

text \<open>
  \<^verbatim>\<open>cos_interp\<close> and \<^verbatim>\<open>barrycentric\<close> of \<^verbatim>\<open>model.h\<close>; a \<^verbatim>\<open>vec3\<close> is a triple.
  \<^verbatim>\<open>cos_interp\<close> belongs to the height synthesis and is exact; \<^verbatim>\<open>barrycentric\<close> belongs to
  the height queries and rounds.
\<close>

definition cos_interp :: "real \<Rightarrow> real \<Rightarrow> real \<Rightarrow> real" where
  "cos_interp a b blend =
     (let theta = blend * pi;
          f = (1 - cos theta) / 2
      in a * (1 - f) + b * f)"

definition barrycentric ::
  "real \<times> real \<times> real \<Rightarrow> real \<times> real \<times> real \<Rightarrow> real \<times> real \<times> real \<Rightarrow> real \<times> real \<Rightarrow> real" where
  "barrycentric p1 p2 p3 pos =
     (case (p1, p2, p3, pos) of ((p10, p11, p12), (p20, p21, p22), (p30, p31, p32), (pos0, pos1)) \<Rightarrow>
        let det = f32_add (f32_mul (f32_sub p22 p32) (f32_sub p10 p30))
                          (f32_mul (f32_sub p30 p20) (f32_sub p12 p32));
            l1 = f32_div (f32_add (f32_mul (f32_sub p22 p32) (f32_sub pos0 p30))
                                  (f32_mul (f32_sub p30 p20) (f32_sub pos1 p32))) det;
            l2 = f32_div (f32_add (f32_mul (f32_sub p32 p12) (f32_sub pos0 p30))
                                  (f32_mul (f32_sub p10 p30) (f32_sub pos1 p32))) det;
            l3 = f32_sub (f32_sub 1 l1) l2
        in f32_add (f32_add (f32_mul l1 p11) (f32_mul l2 p21)) (f32_mul l3 p31))"

section \<open>The pseudo-random generators of the C library\<close>

text \<open>
  \<^verbatim>\<open>srand48\<close>, \<^verbatim>\<open>drand48\<close> and \<^verbatim>\<open>lrand48\<close> are the generator that POSIX fixes: a 48-bit
  state \<open>X\<close>, stepped by \<open>X := (0x5DEECE66D * X + 0xB) mod 2^48\<close>; \<^verbatim>\<open>srand48\<close> sets the high 32
  bits of \<open>X\<close> to the low 32 bits of its argument and the low 16 bits to \<open>0x330E\<close>; \<^verbatim>\<open>drand48\<close>
  returns \<open>X / 2^48\<close> and \<^verbatim>\<open>lrand48\<close> the high 31 bits of \<open>X\<close>. The state is global in C and
  is passed explicitly here. The sequence of \<^verbatim>\<open>rand\<close> is left to the implementation by the
  C standard: the state holds the outputs still to come, and a call takes the first.
\<close>

record rng =
  x48 :: nat
  rand_future :: "nat \<Rightarrow> nat"

definition srand48 :: "int \<Rightarrow> rng \<Rightarrow> rng" where
  "srand48 seedval st = st\<lparr>x48 := nat (take_bit 32 seedval) * 2 ^ 16 + 0x330E\<rparr>"

definition next48 :: "nat \<Rightarrow> nat" where
  "next48 X = (0x5DEECE66D * X + 0xB) mod 2 ^ 48"

definition drand48 :: "rng \<Rightarrow> real \<times> rng" where
  "drand48 st = (real (next48 (x48 st)) / 2 ^ 48, st\<lparr>x48 := next48 (x48 st)\<rparr>)"

definition lrand48 :: "rng \<Rightarrow> int \<times> rng" where
  "lrand48 st = (int (next48 (x48 st) div 2 ^ 17), st\<lparr>x48 := next48 (x48 st)\<rparr>)"

definition rand :: "rng \<Rightarrow> int \<times> rng" where
  "rand st = (int (rand_future st 0), st\<lparr>rand_future := (\<lambda>k. rand_future st (Suc k))\<rparr>)"

section \<open>Maze generation\<close>

text \<open>
  \<^verbatim>\<open>ca_gen_maze\<close>: every cell of a zeroed array is seeded from one \<^verbatim>\<open>lrand48\<close> draw, in the
  order of the loops, then the automaton is stepped \<open>steps\<close> times.
\<close>

fun ca_seed_cells ::
  "cell_automaton \<Rightarrow> int \<Rightarrow> (nat \<times> nat) list \<Rightarrow> nat list \<Rightarrow> rng \<Rightarrow> nat list \<times> rng" where
  "ca_seed_cells ca side [] arr st = (arr, st)"
| "ca_seed_cells ca side ((i, j) # cs) arr st =
     (let (r, st') = lrand48 st;
          v = r mod 8
      in ca_seed_cells ca side cs
           (xyarray_set arr side (int i) (int j) (if v \<le> int (nr_states ca) then nr_states ca else 0))
           st')"

definition ca_gen_maze :: "cell_automaton \<Rightarrow> int \<Rightarrow> nat \<Rightarrow> rng \<Rightarrow> nat list \<times> rng" where
  "ca_gen_maze ca side steps st =
     (let (arr, st') = ca_seed_cells ca side (cell_order side) (replicate (nat (side * side)) 0) st
      in (((\<lambda>a. cell_aut_step ca a side) ^^ steps) arr, st'))"

section \<open>The terrain and its seed heights\<close>

text \<open>
  \<^verbatim>\<open>struct terrain\<close>. A null \<^verbatim>\<open>map\<close> or \<^verbatim>\<open>map0\<close> is \<open>None\<close>. The fields \<^verbatim>\<open>ref\<close> and \<^verbatim>\<open>entity\<close>
  belong to the renderer and are left out.
\<close>

record terrain =
  t_seed :: int
  t_map :: "real list option"
  t_map0 :: "real list option"
  t_x :: real
  t_y :: real
  t_z :: real
  t_side :: nat
  t_nr_vert :: nat

definition get_rand_height :: "terrain \<Rightarrow> int \<Rightarrow> int \<Rightarrow> rng \<Rightarrow> real \<times> rng" where
  "get_rand_height t x z st =
     (let (d, st') = drand48 (srand48 (xor (t_seed t) (x + z * 43210)) st)
      in (d * 2 - 1, st'))"

text \<open>
  \<^verbatim>\<open>get_mapped_rand_height\<close> is called while \<^verbatim>\<open>map0\<close> is allocated with \<open>nr_vert * nr_vert\<close>
  elements; after the wrap both coordinates are inside the grid.
\<close>

definition map0_of :: "terrain \<Rightarrow> real list" where
  "map0_of t = (case t_map0 t of None \<Rightarrow> [] | Some m \<Rightarrow> m)"

definition get_mapped_rand_height :: "terrain \<Rightarrow> int \<Rightarrow> int \<Rightarrow> real" where
  "get_mapped_rand_height t x z =
     (let x' = (if x < 0 then int (t_nr_vert t) - 1 else if x \<ge> int (t_nr_vert t) then 0 else x);
          z' = (if z < 0 then int (t_nr_vert t) - 1 else if z \<ge> int (t_nr_vert t) then 0 else z)
      in map0_of t ! nat (x' * int (t_nr_vert t) + z'))"

definition get_avg_height :: "terrain \<Rightarrow> int \<Rightarrow> int \<Rightarrow> real" where
  "get_avg_height t x z =
     (let corners = (get_mapped_rand_height t (x - 1) (z - 1) +
                     get_mapped_rand_height t (x + 1) (z - 1) +
                     get_mapped_rand_height t (x - 1) (z + 1) +
                     get_mapped_rand_height t (x + 1) (z + 1)) / 16;
          sides = (get_mapped_rand_height t (x - 1) z +
                   get_mapped_rand_height t (x + 1) z +
                   get_mapped_rand_height t x (z - 1) +
                   get_mapped_rand_height t x (z + 1)) / 8;
          self = get_mapped_rand_height t x z / 4
      in corners + sides + self)"

definition get_interp_height :: "terrain \<Rightarrow> real \<Rightarrow> real \<Rightarrow> real" where
  "get_interp_height t x z =
     (let intx = \<lfloor>x\<rfloor>;
          intz = \<lfloor>z\<rfloor>;
          fracx = x - of_int intx;
          fracz = z - of_int intz;
          v1 = get_avg_height t intx intz;
          v2 = get_avg_height t (intx + 1) intz;
          v3 = get_avg_height t intx (intz + 1);
          v4 = get_avg_height t (intx + 1) (intz + 1);
          i1 = cos_interp v1 v2 fracx;
          i2 = cos_interp v3 v4 fracx
      in cos_interp i1 i2 fracz)"

definition OCTAVES :: int where "OCTAVES = 4"
definition ROUGHNESS :: real where "ROUGHNESS = 0.5"
definition AMPLITUDE :: real where "AMPLITUDE = 8"

text \<open>\<^verbatim>\<open>get_height\<close>: the loop over the octaves adds to \<open>total\<close>.\<close>

definition get_height :: "terrain \<Rightarrow> int \<Rightarrow> int \<Rightarrow> real \<Rightarrow> int \<Rightarrow> real" where
  "get_height t x z amp0 oct0 =
     (let d = 2 powr of_int (oct0 - 1);
          total = fold (\<lambda>i total.
                    let freq = 2 ^ i / d;
                        amp = ROUGHNESS ^ i * amp0
                    in total + get_interp_height t (of_int x * freq) (of_int z * freq) * amp)
                  [0..<nat oct0] 0
      in t_y t + total)"

section \<open>Binary space partition\<close>

text \<open>
  \<^verbatim>\<open>struct bsp_part\<close>: a node has a rectangle, an amplitude and an octave count; it has both
  children or none. The \<^verbatim>\<open>root\<close> pointer of the source is passed as an argument where it is
  used. The nodes are zeroed when allocated, so an inner node has amplitude and octaves 0.
\<close>

datatype bsp_part =
    Leaf (bsp_x: int) (bsp_y: int) (bsp_w: int) (bsp_h: int) (bsp_amp: real) (bsp_oct: int)
  | Split (bsp_x: int) (bsp_y: int) (bsp_w: int) (bsp_h: int) (bsp_amp: real) (bsp_oct: int)
      (bsp_a: bsp_part) (bsp_b: bsp_part)

definition bsp_area :: "bsp_part \<Rightarrow> int" where
  "bsp_area node = bsp_w node * bsp_h node"

definition BSP_MIN_WIDTH :: int where "BSP_MIN_WIDTH = 1"

text \<open>
  \<^verbatim>\<open>bsp_needs_split\<close>, for a node of width \<open>w\<close> and height \<open>h\<close> in a tree whose root has the
  area \<open>root_area\<close>. The tests come in the order of the source; the second quotient is
  taken only when the first test fails.
\<close>

definition bsp_needs_split :: "int \<Rightarrow> int \<Rightarrow> int \<Rightarrow> int \<Rightarrow> error + bool" where
  "bsp_needs_split w h root_area level =
     (if w = BSP_MIN_WIDTH * 2 \<or> h = BSP_MIN_WIDTH * 2 then Inr False
      else if level > 16 then Inr False
      else if h = 0 then Inl DivByZero
      else if w sdiv h > 4 then Inr True
      else if w = 0 then Inl DivByZero
      else if h sdiv w > 4 then Inr True
      else if w * h > root_area sdiv 4 then Inr True
      else if level < 3 then Inr True
      else Inr False)"

text \<open>The choice of the axis at the head of \<^verbatim>\<open>bsp_part_one\<close>.\<close>

definition bsp_vertical :: "int \<Rightarrow> int \<Rightarrow> int \<Rightarrow> error + bool" where
  "bsp_vertical w h level =
     (if h = 0 then Inl DivByZero
      else if w sdiv h > 4 then Inr True
      else if w = 0 then Inl DivByZero
      else if h sdiv w > 4 then Inr False
      else Inr (and level 1 \<noteq> 0))"

text \<open>
  The two children of a node, before they are split further or given to the callback. The
  product of the fraction and the side is a product of \<^verbatim>\<open>double\<close> values.
\<close>

definition bsp_children ::
  "int \<Rightarrow> int \<Rightarrow> int \<Rightarrow> int \<Rightarrow> bool \<Rightarrow> real \<Rightarrow> bsp_part \<times> bsp_part" where
  "bsp_children x y w h vertical fr =
     (if vertical then
        let aw = c_trunc (c_min (c_max (fl64 (fr * of_int w)) (of_int BSP_MIN_WIDTH))
                                (of_int (w - BSP_MIN_WIDTH)))
        in (Leaf x y aw h 0 0, Leaf (x + aw) y (w - aw) h 0 0)
      else
        let ah = c_trunc (c_min (c_max (fl64 (fr * of_int h)) (of_int BSP_MIN_WIDTH))
                                (of_int (h - BSP_MIN_WIDTH)))
        in (Leaf x y w ah 0 0, Leaf x (y + ah) w (h - ah) 0 0))"

text \<open>
  \<^verbatim>\<open>bsp_part_one\<close> splits the node \<open>(x, y, w, h)\<close>; each child is split in turn or handed to
  the callback \<open>cb\<close>. The draws follow the order of the source: the fraction first, then
  the whole subtree of the first child, then that of the second.
\<close>

function bsp_part_one ::
  "(bsp_part \<Rightarrow> int \<Rightarrow> rng \<Rightarrow> bsp_part \<times> rng) \<Rightarrow> int \<Rightarrow> int \<Rightarrow> int \<Rightarrow> int \<Rightarrow> int \<Rightarrow> int \<Rightarrow> rng
   \<Rightarrow> error + bsp_part \<times> rng" where
  "bsp_part_one cb root_area x y w h level st =
     (case drand48 st of (frac0, st1) \<Rightarrow>
       (case bsp_vertical w h level of
          Inl e \<Rightarrow> Inl e
        | Inr vertical \<Rightarrow>
           (case bsp_children x y w h vertical (clampd frac0 (fl64 0.2) (fl64 0.8)) of (a, b) \<Rightarrow>
             (case bsp_needs_split (bsp_w a) (bsp_h a) root_area level of
                Inl e \<Rightarrow> Inl e
              | Inr split_a \<Rightarrow>
                 (case (if split_a
                        then bsp_part_one cb root_area (bsp_x a) (bsp_y a) (bsp_w a) (bsp_h a)
                               (level + 1) st1
                        else Inr (cb a level st1)) of
                    Inl e \<Rightarrow> Inl e
                  | Inr (a', st2) \<Rightarrow>
                     (case bsp_needs_split (bsp_w b) (bsp_h b) root_area level of
                        Inl e \<Rightarrow> Inl e
                      | Inr split_b \<Rightarrow>
                         (case (if split_b
                                then bsp_part_one cb root_area (bsp_x b) (bsp_y b) (bsp_w b) (bsp_h b)
                                       (level + 1) st2
                                else Inr (cb b level st2)) of
                            Inl e \<Rightarrow> Inl e
                          | Inr (b', st3) \<Rightarrow> Inr (Split x y w h 0 0 a' b', st3))))))))"
  by pat_completeness auto

lemma bsp_needs_split_level: "bsp_needs_split w h ra level = Inr True \<Longrightarrow> level \<le> 16"
  by (simp add: bsp_needs_split_def split: if_splits)

termination bsp_part_one
  by (relation "measure (\<lambda>(cb, ra, x, y, w, h, level, st). nat (17 - level))")
     (auto dest: bsp_needs_split_level)

declare bsp_part_one.simps [simp del]

definition bsp_process ::
  "int \<Rightarrow> int \<Rightarrow> int \<Rightarrow> int \<Rightarrow> int \<Rightarrow> int \<Rightarrow> (bsp_part \<Rightarrow> int \<Rightarrow> rng \<Rightarrow> bsp_part \<times> rng) \<Rightarrow> rng
   \<Rightarrow> error + bsp_part \<times> rng" where
  "bsp_process seed depth x y w h cb st = bsp_part_one cb (w * h) x y w h 0 (srand48 seed st)"

definition bsp_within_rect :: "bsp_part \<Rightarrow> int \<Rightarrow> int \<Rightarrow> bool" where
  "bsp_within_rect bp x y = (x \<ge> bsp_x bp \<and> x < bsp_x bp + bsp_w bp \<and> y \<ge> bsp_y bp \<and> y < bsp_y bp + bsp_h bp)"

definition bsp_larger_smaller :: "bsp_part \<times> bsp_part \<Rightarrow> bsp_part \<times> bsp_part" where
  "bsp_larger_smaller ab = (if bsp_area (fst ab) < bsp_area (snd ab) then (snd ab, fst ab) else ab)"

text \<open>
  \<^verbatim>\<open>bsp_within_ellipse\<close>. A zero half axis makes the quotient of the source infinite or
  not a number, and the comparison false.
\<close>

definition bsp_within_ellipse :: "bsp_part \<Rightarrow> int \<Rightarrow> int \<Rightarrow> bool" where
  "bsp_within_ellipse bp x y =
     (let xax = real_of_int (bsp_w bp sdiv 2);
          yax = real_of_int (bsp_h bp sdiv 2);
          dx = real_of_int x - real_of_int (bsp_x bp + bsp_w bp sdiv 2);
          dy = real_of_int y - real_of_int (bsp_y bp + bsp_h bp sdiv 2)
      in if \<not> bsp_within_rect bp x y then False
         else if xax = 0 \<or> yax = 0 then False
         else dx\<^sup>2 / xax\<^sup>2 + dy\<^sup>2 / yax\<^sup>2 \<le> 1)"

fun has_kids :: "bsp_part \<Rightarrow> bool" where
  "has_kids (Leaf _ _ _ _ _ _) = False"
| "has_kids (Split _ _ _ _ _ _ _ _) = True"

definition bsp_within :: "bsp_part \<Rightarrow> int \<Rightarrow> int \<Rightarrow> bool" where
  "bsp_within bp x y =
     (if has_kids bp \<and> has_kids (bsp_a bp) then bsp_within_rect bp x y
      else bsp_within_ellipse bp x y)"

text \<open>\<^verbatim>\<open>bsp_find\<close>: the loop descends until it stands on a node without children.\<close>

fun bsp_find :: "bsp_part \<Rightarrow> int \<Rightarrow> int \<Rightarrow> bsp_part" where
  "bsp_find (Leaf lx ly lw lh la lo) x y = Leaf lx ly lw lh la lo"
| "bsp_find (Split sx sy sw sh sa so a b) x y =
     (if bsp_area a < bsp_area b
      then (if bsp_within b x y then bsp_find b x y else bsp_find a x y)
      else (if bsp_within a x y then bsp_find a x y else bsp_find b x y))"

definition bsp_xfrac :: "bsp_part \<Rightarrow> int \<Rightarrow> real" where
  "bsp_xfrac node x = real_of_int (x - bsp_x node - bsp_w node sdiv 2) / (real_of_int (bsp_w node) / 2)"

definition bsp_yfrac :: "bsp_part \<Rightarrow> int \<Rightarrow> real" where
  "bsp_yfrac node y = real_of_int (y - bsp_y node - bsp_h node sdiv 2) / (real_of_int (bsp_h node) / 2)"

text \<open>\<^verbatim>\<open>bsp_xneigh\<close> and \<^verbatim>\<open>bsp_yneigh\<close>; \<open>rt\<close> is \<^verbatim>\<open>node->root\<close>.\<close>

definition bsp_xneigh :: "bsp_part \<Rightarrow> bsp_part \<Rightarrow> int \<Rightarrow> int \<Rightarrow> bsp_part" where
  "bsp_xneigh rt node x y =
     (let dir = (if bsp_xfrac node x \<ge> 0 then 1 else - 1 :: int)
      in if dir > 0 then
           (if x \<ge> bsp_x rt + bsp_w rt then node else bsp_find rt (bsp_x node + bsp_w node) y)
         else if x \<le> bsp_x rt then node
         else bsp_find rt (bsp_x node - 1) y)"

definition bsp_yneigh :: "bsp_part \<Rightarrow> bsp_part \<Rightarrow> int \<Rightarrow> int \<Rightarrow> bsp_part" where
  "bsp_yneigh rt node x y =
     (let dir = (if bsp_yfrac node y \<ge> 0 then 1 else - 1 :: int)
      in if dir > 0 then
           (if y \<ge> bsp_y rt + bsp_h rt then node else bsp_find rt x (bsp_y node + bsp_h node))
         else if y \<le> bsp_y rt then node
         else bsp_find rt x (bsp_y node - 1))"

text \<open>
  \<^verbatim>\<open>terrain_bsp_cb\<close> gives a leaf its amplitude and its octaves. The product with
  \<^verbatim>\<open>AMPLITUDE\<close> is a \<^verbatim>\<open>double\<close>, the bound \<^verbatim>\<open>(16 - level) * 3.f\<close> a \<^verbatim>\<open>float\<close>, and the field
  \<^verbatim>\<open>amp\<close> that receives the smaller one a \<^verbatim>\<open>float\<close>.
\<close>

definition set_amp_oct :: "bsp_part \<Rightarrow> real \<Rightarrow> int \<Rightarrow> bsp_part" where
  "set_amp_oct node a oc =
     (case node of
        Leaf lx ly lw lh _ _ \<Rightarrow> Leaf lx ly lw lh a oc
      | Split sx sy sw sh _ _ ka kb \<Rightarrow> Split sx sy sw sh a oc ka kb)"

definition terrain_bsp_cb :: "bsp_part \<Rightarrow> int \<Rightarrow> rng \<Rightarrow> bsp_part \<times> rng" where
  "terrain_bsp_cb node level st =
     (let (d, st1) = drand48 st;
          (r, st2) = rand st1
      in (set_amp_oct node
            (fl32 (c_min (fl64 (d * AMPLITUDE)) (fl32 (of_int (16 - level) * 3))))
            (and r 3 + 3),
          st2))"

section \<open>The height map\<close>

definition MAZE_FAC :: nat where "MAZE_FAC = 8"

text \<open>
  The body of the loop of \<^verbatim>\<open>terrain_init_square_landscape\<close> that fills \<^verbatim>\<open>map\<close>, for the cell
  \<open>(i, j)\<close>, in three parts. \<open>bsp_blend\<close> is the local \<^verbatim>\<open>amp\<close>: the amplitude of the leaf found
  for the cell, blended with those of the two neighbours (the source asks for the
  neighbours of the root). \<open>maze_avg\<close> is the local \<^verbatim>\<open>avg\<close>, computed from the maze.
  \<open>height_args\<close> is the pair of the amplitude and the octave count handed to
  \<^verbatim>\<open>get_height\<close>.
\<close>

definition bsp_blend :: "bsp_part \<Rightarrow> nat \<Rightarrow> nat \<Rightarrow> real" where
  "bsp_blend bsp_root i j =
     (let bp = bsp_find bsp_root (int i) (int j);
          bpx = bsp_xneigh bsp_root bsp_root (int i) (int j);
          bpy = bsp_yneigh bsp_root bsp_root (int i) (int j);
          xfrac = bsp_xfrac bp (int i);
          yfrac = bsp_yfrac bp (int j);
          xamp = cos_interp (bsp_amp bp) (bsp_amp bpx) \<bar>xfrac\<bar>;
          yamp = cos_interp (bsp_amp bp) (bsp_amp bpy) \<bar>yfrac\<bar>
      in cos_interp xamp yamp \<bar>xfrac - yfrac\<bar>)"

definition maze_avg :: "nat list \<Rightarrow> int \<Rightarrow> nat \<Rightarrow> nat \<Rightarrow> real" where
  "maze_avg maze mside i j =
     (let xfrac = real (i mod MAZE_FAC) / real MAZE_FAC;
          yfrac = real (j mod MAZE_FAC) / real MAZE_FAC;
          xpos = int (i div MAZE_FAC);
          ypos = int (j div MAZE_FAC);
          cn = xyarray_get maze mside xpos ypos;
          xn = xyarray_get maze mside (if xfrac \<ge> 0.5 then xpos + 1 else xpos - 1) ypos;
          yn = xyarray_get maze mside xpos (if yfrac \<ge> 0.5 then ypos + 1 else ypos - 1);
          xavg = (if cn > xn then real cn else cos_interp (real cn) (real xn) (2 * xfrac - 1));
          yavg = (if cn > yn then real cn else cos_interp (real cn) (real yn) (2 * yfrac - 1))
      in cos_interp xavg yavg \<bar>xfrac - yfrac\<bar>)"

definition height_args :: "bsp_part \<Rightarrow> nat list \<Rightarrow> int \<Rightarrow> nat \<Rightarrow> nat \<Rightarrow> real \<times> int" where
  "height_args bsp_root maze mside i j =
     (let amp = bsp_blend bsp_root i j;
          avg = maze_avg maze mside i j
      in (1.5 powr avg, OCTAVES))"

definition landscape_cell :: "terrain \<Rightarrow> bsp_part \<Rightarrow> nat list \<Rightarrow> int \<Rightarrow> nat \<Rightarrow> nat \<Rightarrow> real" where
  "landscape_cell t bsp_root maze mside i j =
     (case height_args bsp_root maze mside i j of (a, oc) \<Rightarrow>
        get_height t (int i) (int j) a oc + maze_avg maze mside i j)"

text \<open>
  The loop that fills \<^verbatim>\<open>map0\<close>: the element \<open>i * nr_v + j\<close> of the zeroed array receives
  \<^verbatim>\<open>get_rand_height(t, i, j)\<close>, the generator's state going from one call to the next.
\<close>

fun fill_map0 :: "terrain \<Rightarrow> (nat \<times> nat) list \<Rightarrow> real list \<Rightarrow> rng \<Rightarrow> real list \<times> rng" where
  "fill_map0 t [] m st = (m, st)"
| "fill_map0 t ((i, j) # cs) m st =
     (case get_rand_height t (int i) (int j) st of (v, st') \<Rightarrow>
        fill_map0 t cs (m[i * t_nr_vert t + j := v]) st')"

text \<open>
  The loop that fills \<^verbatim>\<open>map\<close> writes the element \<open>i * nr_v + j\<close> for every \<open>i\<close> and \<open>j\<close> below
  \<open>nr_v\<close>; its body reads \<^verbatim>\<open>map0\<close>, the tree and the maze, and writes nothing else.
\<close>

definition fill_map :: "terrain \<Rightarrow> bsp_part \<Rightarrow> nat list \<Rightarrow> int \<Rightarrow> real list" where
  "fill_map t bsp_root maze mside =
     map (\<lambda>k. landscape_cell t bsp_root maze mside (k div t_nr_vert t) (k mod t_nr_vert t))
       [0..<t_nr_vert t * t_nr_vert t]"

text \<open>
  \<^verbatim>\<open>terrain_init_square_landscape\<close>, up to the height map and the placement automata. The
  clock reading \<open>nsec\<close> (\<^verbatim>\<open>ts.tv_nsec\<close>, the seed) and the state \<open>st\<close> of the generators at
  entry are inputs. The result is the terrain, the maze after the placement steps and the
  state of the generators. The vertex buffers, the scene and the physics are outside the
  model.
\<close>

definition terrain_init_square_landscape ::
  "rng \<Rightarrow> int \<Rightarrow> real \<Rightarrow> real \<Rightarrow> real \<Rightarrow> real \<Rightarrow> nat \<Rightarrow> error + terrain \<times> nat list \<times> rng" where
  "terrain_init_square_landscape st nsec x y z side nr_v =
     (let mside = int (nr_v div MAZE_FAC) in
      case ca_gen_maze ca_test mside 3 st of (maze, st1) \<Rightarrow>
       (case bsp_process nsec 3 0 0 (int nr_v) (int nr_v) terrain_bsp_cb st1 of
          Inl e \<Rightarrow> Inl e
        | Inr (bsp_root, st2) \<Rightarrow>
           (let t0 = \<lparr> t_seed = nsec, t_map = None, t_map0 = None, t_x = x, t_y = y, t_z = z,
                       t_side = nat \<lfloor>side\<rfloor>, t_nr_vert = nr_v \<rparr>
            in case fill_map0 t0 (List.product [0..<nr_v] [0..<nr_v])
                      (replicate (nr_v * nr_v) 0) st2 of (m0, st3) \<Rightarrow>
                 (let t1 = t0\<lparr> t_map0 := Some m0 \<rparr>;
                      m = fill_map t1 bsp_root maze mside;
                      t2 = t1\<lparr> t_map := Some m, t_map0 := None \<rparr>;
                      maze' = fold (\<lambda>ca a. cell_aut_step ca a mside) ca_instors maze
                  in Inr (t2, maze', st3)))))"

section \<open>Height queries\<close>

text \<open>
  \<^verbatim>\<open>nr_vert - 1\<close> is unsigned and wraps at zero. An index into \<^verbatim>\<open>map\<close> is computed in unsigned
  32-bit arithmetic. A read of \<^verbatim>\<open>map\<close> past its end is an error value.
\<close>

definition nr_vert_minus_1 :: "terrain \<Rightarrow> nat" where
  "nr_vert_minus_1 t = (t_nr_vert t + 2 ^ 32 - 1) mod 2 ^ 32"

definition map_index :: "terrain \<Rightarrow> int \<Rightarrow> int \<Rightarrow> nat" where
  "map_index t gx gz = nat ((gx * int (t_nr_vert t) + gz) mod 2 ^ 32)"

definition map_read3 :: "real list \<Rightarrow> nat \<Rightarrow> nat \<Rightarrow> nat \<Rightarrow> error + real \<times> real \<times> real" where
  "map_read3 m k1 k2 k3 =
     (if k1 < length m \<and> k2 < length m \<and> k3 < length m then Inr (m ! k1, m ! k2, m ! k3)
      else Inl OutOfBounds)"

text \<open>
  The grid cell and the offsets inside it that \<^verbatim>\<open>terrain_height\<close> computes for a query, and
  the three elements of \<^verbatim>\<open>map\<close> it then reads, in the order of the source. All of it is
  \<^verbatim>\<open>float\<close> arithmetic: the side and \<^verbatim>\<open>nr_vert - 1\<close> are converted to \<^verbatim>\<open>float\<close>, and so is
  \<^verbatim>\<open>gridx\<close> in the product with \<^verbatim>\<open>square\<close>. The conversion of the floor to \<^verbatim>\<open>int\<close> is taken
  to be in range.
\<close>

definition terrain_grid :: "terrain \<Rightarrow> real \<Rightarrow> real \<Rightarrow> int \<times> int \<times> real \<times> real" where
  "terrain_grid t x z =
     (let square = f32_div (fl32 (real (t_side t))) (fl32 (real (nr_vert_minus_1 t)));
          tx = f32_sub x (t_x t);
          tz = f32_sub z (t_z t);
          gridx = \<lfloor>f32_div tx square\<rfloor>;
          gridz = \<lfloor>f32_div tz square\<rfloor>;
          xoff = f32_div (f32_sub tx (f32_mul square (fl32 (of_int gridx)))) square;
          zoff = f32_div (f32_sub tz (f32_mul square (fl32 (of_int gridz)))) square
      in (gridx, gridz, xoff, zoff))"

definition terrain_height_reads :: "terrain \<Rightarrow> real \<Rightarrow> real \<Rightarrow> nat list" where
  "terrain_height_reads t x z =
     (case terrain_grid t x z of (gridx, gridz, xoff, zoff) \<Rightarrow>
        if xoff \<le> f32_sub 1 zoff
        then [map_index t gridx gridz, map_index t (gridx + 1) gridz, map_index t gridx (gridz + 1)]
        else [map_index t (gridx + 1) gridz, map_index t (gridx + 1) (gridz + 1),
              map_index t gridx (gridz + 1)])"

text \<open>
  The far edges of the bounds test: \<^verbatim>\<open>t->x + t->side\<close> is the \<^verbatim>\<open>float\<close> sum of the origin and
  the side converted to \<^verbatim>\<open>float\<close>.
\<close>

definition far_edge :: "real \<Rightarrow> nat \<Rightarrow> real" where
  "far_edge origin side = f32_add origin (fl32 (real side))"

definition terrain_in_bounds :: "terrain \<Rightarrow> real \<Rightarrow> real \<Rightarrow> bool" where
  "terrain_in_bounds t x z =
     (\<not> (x < t_x t \<or> x > far_edge (t_x t) (t_side t)
         \<or> z < t_z t \<or> z > far_edge (t_z t) (t_side t)))"

definition terrain_height :: "terrain \<Rightarrow> real \<Rightarrow> real \<Rightarrow> error + real" where
  "terrain_height t x z =
     (case terrain_grid t x z of (gridx, gridz, xoff, zoff) \<Rightarrow>
       (case t_map t of
          None \<Rightarrow> Inr 0
        | Some m \<Rightarrow>
           (if x < t_x t \<or> x > far_edge (t_x t) (t_side t)
               \<or> z < t_z t \<or> z > far_edge (t_z t) (t_side t)
            then Inr 0
            else if xoff \<le> f32_sub 1 zoff
            then (case map_read3 m (map_index t gridx gridz) (map_index t (gridx + 1) gridz)
                         (map_index t gridx (gridz + 1)) of
                    Inl e \<Rightarrow> Inl e
                  | Inr (h1, h2, h3) \<Rightarrow>
                      Inr (barrycentric (0, h1, 0) (1, h2, 0) (0, h3, 1) (xoff, zoff)))
            else (case map_read3 m (map_index t (gridx + 1) gridz)
                         (map_index t (gridx + 1) (gridz + 1)) (map_index t gridx (gridz + 1)) of
                    Inl e \<Rightarrow> Inl e
                  | Inr (h1, h2, h3) \<Rightarrow>
                      Inr (barrycentric (1, h1, 0) (1, h2, 1) (0, h3, 1) (xoff, zoff))))))"

text \<open>
  A terrain as the builder leaves it, for the height queries: \<^verbatim>\<open>map\<close> holds
  \<open>nr_vert * nr_vert\<close> heights, there are at least two vertices per side (few enough for
  the index arithmetic not to wrap), and the side is positive.
\<close>

definition terrain_wf :: "terrain \<Rightarrow> real list \<Rightarrow> bool" where
  "terrain_wf t m =
     (t_map t = Some m \<and> length m = t_nr_vert t * t_nr_vert t \<and>
      2 \<le> t_nr_vert t \<and> t_nr_vert t < 2 ^ 16 \<and> 0 < t_side t)"

text \<open>The terrain of the failing query of claim C6: two vertices per side, side 1.\<close>

definition terrain_2x2 :: terrain where
  "terrain_2x2 = \<lparr> t_seed = 0, t_map = Some [0, 0, 0, 0], t_map0 = None, t_x = 0, t_y = 0,
                   t_z = 0, t_side = 1, t_nr_vert = 2 \<rparr>"

text \<open>
  A terrain whose grid lines have integral coordinates of magnitude below \<open>2^24\<close>, the squares
  being \<open>q\<close> wide: on the grid lines the \<^verbatim>\<open>float\<close> arithmetic of the queries is exact.
\<close>

definition terrain_integral :: "terrain \<Rightarrow> int \<Rightarrow> int \<Rightarrow> nat \<Rightarrow> bool" where
  "terrain_integral t ox oz q =
     (t_x t = of_int ox \<and> t_z t = of_int oz \<and> t_side t = q * (t_nr_vert t - 1)
      \<and> \<bar>ox\<bar> + int (t_side t) < 2 ^ 24 \<and> \<bar>oz\<bar> + int (t_side t) < 2 ^ 24)"

text \<open>
  A terrain far from the origin: \<open>origin.z = 2^24\<close>, side 3, four vertices per side. The sum
  \<open>2^24 + 3\<close> is not a \<^verbatim>\<open>float\<close>.
\<close>

definition terrain_far :: terrain where
  "terrain_far = \<lparr> t_seed = 0, t_map = Some [0, 0, 0, 0, 5, 0, 0, 0, 0, 0, 0, 0, 0, 0, 0, 0],
                   t_map0 = None, t_x = 0, t_y = 0, t_z = 16777216, t_side = 3, t_nr_vert = 4 \<rparr>"

section \<open>States of the generators, and the seed heights as functions of the seed\<close>

text \<open>
  A state of the generators in which \<open>X\<close> is the 48-bit state and \<^verbatim>\<open>rand\<close> will return
  \<open>f 0\<close>, \<open>f 1\<close>, ... \<open>rng_initial\<close> is the state in a process of the GNU C library that has
  seeded neither generator: the 48-bit state is 0, and \<open>glibc_rand\<close> lists the first
  sixteen values of \<^verbatim>\<open>rand\<close> (no more are drawn here).
\<close>

definition rng_at :: "nat \<Rightarrow> (nat \<Rightarrow> nat) \<Rightarrow> rng" where
  "rng_at X f = \<lparr> x48 = X, rand_future = f \<rparr>"

definition glibc_rand :: "nat \<Rightarrow> nat" where
  "glibc_rand k =
     (if k < 16
      then [1804289383, 846930886, 1681692777, 1714636915, 1957747793, 424238335, 719885386,
            1649760492, 596516649, 1189641421, 1025202362, 1350490027, 783368690, 1102520059,
            2044897763, 1967513926] ! k
      else 0)"

definition rng_initial :: rng where
  "rng_initial = rng_at 0 glibc_rand"

text \<open>
  What \<^verbatim>\<open>get_rand_height\<close> returns and the state it leaves, as functions of the seed and the
  coordinates (lemma \<open>get_rand_height_eq\<close>); the writes of the loop that fills \<^verbatim>\<open>map0\<close>; the
  wrap of \<^verbatim>\<open>get_mapped_rand_height\<close>; and the terrain as the loop that fills \<^verbatim>\<open>map\<close> sees
  it, with \<^verbatim>\<open>map0\<close> filled.
\<close>

definition seed_height :: "int \<Rightarrow> int \<Rightarrow> int \<Rightarrow> real" where
  "seed_height seed x z =
     real (next48 (nat (take_bit 32 (xor seed (x + z * 43210))) * 2 ^ 16 + 0x330E)) / 2 ^ 48 * 2 - 1"

definition seed_state :: "int \<Rightarrow> int \<Rightarrow> int \<Rightarrow> nat" where
  "seed_state seed x z = next48 (nat (take_bit 32 (xor seed (x + z * 43210))) * 2 ^ 16 + 0x330E)"

fun map0_writes :: "int \<Rightarrow> nat \<Rightarrow> (nat \<times> nat) list \<Rightarrow> real list \<Rightarrow> real list" where
  "map0_writes seed n [] m = m"
| "map0_writes seed n ((i, j) # cs) m =
     map0_writes seed n cs (m[i * n + j := seed_height seed (int i) (int j)])"

definition wrap_index :: "nat \<Rightarrow> int \<Rightarrow> int" where
  "wrap_index n x = (if x < 0 then int n - 1 else if x \<ge> int n then 0 else x)"

definition seeded_terrain :: "int \<Rightarrow> real \<Rightarrow> real \<Rightarrow> real \<Rightarrow> real \<Rightarrow> nat \<Rightarrow> terrain" where
  "seeded_terrain nsec x y z side nr_v =
     \<lparr> t_seed = nsec, t_map = None,
       t_map0 = Some (map0_writes nsec nr_v (List.product [0..<nr_v] [0..<nr_v])
                        (replicate (nr_v * nr_v) 0)),
       t_x = x, t_y = y, t_z = z, t_side = nat \<lfloor>side\<rfloor>, t_nr_vert = nr_v \<rparr>"

section \<open>Tilings\<close>

text \<open>
  The grid cells of a rectangle and of a node (\<^verbatim>\<open>bsp_within_rect\<close> decides membership), and
  the tiling property of a tree: at every inner node the areas of the two children add up
  to the area of the node, and the cells of the children partition the cells of the node.
\<close>

definition rect_cells :: "int \<Rightarrow> int \<Rightarrow> int \<Rightarrow> int \<Rightarrow> (int \<times> int) set" where
  "rect_cells x y w h = {(px, py). x \<le> px \<and> px < x + w \<and> y \<le> py \<and> py < y + h}"

definition bsp_cells :: "bsp_part \<Rightarrow> (int \<times> int) set" where
  "bsp_cells node = {(px, py). bsp_within_rect node px py}"

fun bsp_tiling :: "bsp_part \<Rightarrow> bool" where
  "bsp_tiling (Leaf x y w h am oc) = True"
| "bsp_tiling (Split x y w h am oc a b) =
     (bsp_area a + bsp_area b = bsp_area (Split x y w h am oc a b)
      \<and> bsp_cells a \<union> bsp_cells b = bsp_cells (Split x y w h am oc a b)
      \<and> bsp_cells a \<inter> bsp_cells b = {}
      \<and> bsp_tiling a \<and> bsp_tiling b)"

definition bsp_rect :: "bsp_part \<Rightarrow> int \<times> int \<times> int \<times> int" where
  "bsp_rect node = (bsp_x node, bsp_y node, bsp_w node, bsp_h node)"

definition cb_keeps_rect :: "(bsp_part \<Rightarrow> int \<Rightarrow> rng \<Rightarrow> bsp_part \<times> rng) \<Rightarrow> bool" where
  "cb_keeps_rect cb =
     (\<forall>node level st. bsp_rect (fst (cb node level st)) = bsp_rect node
        \<and> bsp_tiling (fst (cb node level st)) = bsp_tiling node)"

text \<open>
  The tree that \<^verbatim>\<open>bsp_process\<close> builds over the 9 by 9 grid for the seed 18 from the state
  \<open>rng_initial\<close> (lemma \<open>bsp_process_seed18\<close>).
\<close>

definition bsp_seed18 :: bsp_part where
  "bsp_seed18 =
     Split 0 0 9 9 0 0 (Split 0 0 9 7 0 0 (Split 0 0 3 7 0 0 (Leaf 0 0 3 2 (16766457 / 8388608)
       6) (Split 0 2 3 5 0 0 (Split 0 2 1 5 0 0 (Leaf 0 2 1 3 (10222537 / 2097152) 5) (Leaf 0 5
       1 2 (1171861 / 262144) 4)) (Leaf 1 2 2 5 (2737115 / 524288) 6))) (Split 3 0 6 7 0 0
       (Split 3 0 6 5 0 0 (Leaf 3 0 4 5 (2573897 / 1048576) 4) (Leaf 7 0 2 5 (3913883 / 524288)
       6)) (Leaf 3 5 6 2 (6133939 / 1048576) 5))) (Leaf 0 7 9 2 (13836943 / 4194304) 3)"

text \<open>
  Two builds in one process that has not seeded the generators, with the seed 18, the
  origin \<open>(0, 0, 0)\<close>, the side 8 and 9 vertices per side: the second build starts in the
  state of the generators that the first one leaves.
\<close>

definition build18_first :: "error + terrain \<times> nat list \<times> rng" where
  "build18_first = terrain_init_square_landscape rng_initial 18 0 0 0 8 9"

definition build18_second :: "error + terrain \<times> nat list \<times> rng" where
  "build18_second = terrain_init_square_landscape (snd (snd (projr build18_first))) 18 0 0 0 8 9"

text \<open>
  A third build, from the state of a process that has called \<^verbatim>\<open>rand\<close> five times and has
  not touched the 48-bit generator.
\<close>

definition build18_again :: "error + terrain \<times> nat list \<times> rng" where
  "build18_again =
     terrain_init_square_landscape (rng_at 0 (\<lambda>k. glibc_rand (k + 5))) 18 0 0 0 8 9"


chapter \<open>Properties\<close>

section \<open>Rounding\<close>

lemma exp_search_hit:
  "2 powi e \<le> a \<Longrightarrow> a < 2 powi (e + 1) \<Longrightarrow> e0 \<le> e \<Longrightarrow> e \<le> e0 + int k \<Longrightarrow>
   exp_search k e0 a = e"
proof (induction k arbitrary: e0)
  case 0
  then show ?case by simp
next
  case (Suc k)
  show ?case
  proof (cases "e0 = e")
    case True
    with Suc.prems show ?thesis by simp
  next
    case False
    with Suc.prems have lt: "e0 + 1 \<le> e" by simp
    have "(2::real) powi (e0 + 1) \<le> 2 powi e"
      using lt by (intro power_int_increasing) simp_all
    with Suc.prems have "2 powi (e0 + 1) \<le> a" by simp
    moreover have "exp_search k (e0 + 1) a = e"
      using Suc.prems lt by (intro Suc.IH) simp_all
    ultimately show ?thesis by simp
  qed
qed

lemma exp_search_low: "a < 2 powi (e0 + 1) \<Longrightarrow> exp_search k e0 a = e0"
  by (cases k) simp_all

lemma fl_exp_eq:
  "emin \<le> e \<Longrightarrow> e \<le> emax \<Longrightarrow> 2 powi e \<le> \<bar>x\<bar> \<Longrightarrow> \<bar>x\<bar> < 2 powi (e + 1) \<Longrightarrow>
   fl_exp emin emax x = e"
  unfolding fl_exp_def by (rule exp_search_hit) simp_all

lemma fl_exp_low: "\<bar>x\<bar> < 2 powi (emin + 1) \<Longrightarrow> fl_exp emin emax x = emin"
  unfolding fl_exp_def by (rule exp_search_low)

lemma rne_of_int: "rne (of_int m) = m"
  by (simp add: rne_def)

lemma fl_round_eval:
  "emin \<le> e \<Longrightarrow> e \<le> emax \<Longrightarrow> 2 powi e \<le> \<bar>x\<bar> \<Longrightarrow> \<bar>x\<bar> < 2 powi (e + 1) \<Longrightarrow>
   fl_round p emin emax x = of_int (rne (x / 2 powi (e - int p + 1))) * 2 powi (e - int p + 1)"
  by (simp add: fl_round_def fl_exp_eq Let_def)

lemma fl_round_0: "emin \<le> emax \<Longrightarrow> fl_round p emin emax 0 = 0"
  by (simp add: fl_round_def rne_def)

lemma two_powi_less_imp:
  assumes "(2::real) powi a < 2 powi b"
  shows "a < b"
proof (rule ccontr)
  assume "\<not> a < b"
  then have "(2::real) powi b \<le> 2 powi a" by (intro power_int_increasing) simp_all
  with assms show False by simp
qed

lemma fl_exp_le:
  assumes x: "\<bar>x\<bar> < 2 powi (b + 1)" and b: "emin \<le> b" and m: "emin \<le> emax"
  shows "fl_exp emin emax x \<le> b"
proof (cases "\<bar>x\<bar> < 2 powi (emin + 1)")
  case True
  then show ?thesis using b by (simp add: fl_exp_low)
next
  case False
  then have lo: "2 powi (emin + 1) \<le> \<bar>x\<bar>" by simp
  then have pos: "0 < \<bar>x\<bar>" by (smt (verit) zero_less_power_int)
  define e where "e = \<lfloor>log 2 \<bar>x\<bar>\<rfloor>"
  have e1: "2 powi e \<le> \<bar>x\<bar>"
  proof -
    have "2 powr (of_int e) \<le> 2 powr (log 2 \<bar>x\<bar>)"
      unfolding e_def by (intro powr_mono) simp_all
    then show ?thesis using pos by (simp add: powr_real_of_int')
  qed
  have e2: "\<bar>x\<bar> < 2 powi (e + 1)"
  proof -
    have "log 2 \<bar>x\<bar> < of_int (e + 1)" unfolding e_def by linarith
    then have "2 powr (log 2 \<bar>x\<bar>) < 2 powr (of_int (e + 1))"
      by (intro powr_less_mono) simp_all
    moreover have "2 powr (of_int (e + 1)) = (2::real) powi (e + 1)"
      by (rule powr_real_of_int') simp_all
    ultimately show ?thesis using pos by simp
  qed
  have "(2::real) powi (emin + 1) < 2 powi (e + 1)" using lo e2 by simp
  then have ge: "emin \<le> e" using two_powi_less_imp [of "emin + 1" "e + 1"] by simp
  have "(2::real) powi e < 2 powi (b + 1)" using e1 x by simp
  then have le: "e \<le> b" using two_powi_less_imp [of e "b + 1"] by simp
  show ?thesis
  proof (cases "e \<le> emax")
    case True
    then have "fl_exp emin emax x = e" using ge e1 e2 by (intro fl_exp_eq)
    then show ?thesis using le by simp
  next
    case False
    have "exp_search k e0 a \<le> e0 + int k" for k e0 a
    proof (induction k arbitrary: e0)
      case 0
      show ?case by simp
    next
      case (Suc k)
      have "exp_search k (e0 + 1) a \<le> e0 + 1 + int k" by (rule Suc.IH)
      then show ?case by simp
    qed
    then have "fl_exp emin emax x \<le> emin + int (nat (emax - emin))"
      unfolding fl_exp_def by blast
    then show ?thesis using False le m by simp
  qed
qed

lemma fl_exp_ge: "emin \<le> fl_exp emin emax x"
proof -
  have "e0 \<le> exp_search k e0 a" for k e0 a
  proof (induction k arbitrary: e0)
    case 0
    show ?case by simp
  next
    case (Suc k)
    have "e0 + 1 \<le> exp_search k (e0 + 1) a" by (rule Suc.IH)
    then show ?case by simp
  qed
  then show ?thesis unfolding fl_exp_def by blast
qed

text \<open>A value with at most \<open>p\<close> significant bits, in the range of the exponents, is not rounded.\<close>

lemma fl_round_repr:
  assumes x: "x = of_int m * 2 powi j" and m: "\<bar>m\<bar> < 2 ^ p"
    and j: "emin - int p + 1 \<le> j" and mm: "emin \<le> emax"
  shows "fl_round p emin emax x = x"
proof -
  define E where "E = fl_exp emin emax x"
  have "\<bar>x\<bar> = of_int \<bar>m\<bar> * 2 powi j" by (simp add: x abs_mult)
  also have "\<dots> < 2 ^ p * 2 powi j"
  proof -
    have "real_of_int \<bar>m\<bar> < 2 ^ p" using m by (metis of_int_less_numeral_power_cancel_iff)
    then show ?thesis by (intro mult_strict_right_mono) simp_all
  qed
  also have "\<dots> = 2 powi (int p + j)" by (simp add: power_int_add)
  finally have "\<bar>x\<bar> < 2 powi ((int p + j - 1) + 1)" by simp
  then have "E \<le> int p + j - 1" unfolding E_def using j mm by (intro fl_exp_le) simp_all
  then have d: "0 \<le> j - (E - int p + 1)" by simp
  define k where "k = nat (j - (E - int p + 1))"
  have "x / 2 powi (E - int p + 1) = of_int m * (2 powi j / 2 powi (E - int p + 1))"
    by (simp add: x)
  also have "2 powi j / (2::real) powi (E - int p + 1) = 2 powi (j - (E - int p + 1))"
    by (simp add: power_int_diff)
  also have "\<dots> = 2 ^ k" using d by (simp add: k_def power_int_def)
  finally have q: "x / 2 powi (E - int p + 1) = of_int (m * 2 ^ k)" by simp
  have "2 powi j = (2::real) powi (j - (E - int p + 1)) * 2 powi (E - int p + 1)"
    by (simp add: power_int_add [symmetric])
  also have "(2::real) powi (j - (E - int p + 1)) = 2 ^ k" using d by (simp add: k_def power_int_def)
  finally have r: "of_int (m * 2 ^ k) * 2 powi (E - int p + 1) = x" by (simp add: x)
  show ?thesis
    unfolding fl_round_def Let_def E_def [symmetric] q rne_of_int by (rule r)
qed

lemma fl32_int: "\<bar>k\<bar> < 2 ^ 24 \<Longrightarrow> fl32 (of_int k) = of_int k"
  unfolding fl32_def by (rule fl_round_repr [where m = k and j = 0]) simp_all

lemma fl32_nat: "k < 2 ^ 24 \<Longrightarrow> fl32 (real k) = real k"
  using fl32_int [of "int k"] by simp

lemma rne_cases: "rne y = \<lfloor>y\<rfloor> \<or> rne y = \<lfloor>y\<rfloor> + 1"
  by (simp add: rne_def Let_def)

lemma rne_frac:
  "rne y = (if y - of_int \<lfloor>y\<rfloor> < 1 / 2 then \<lfloor>y\<rfloor>
            else if 1 / 2 < y - of_int \<lfloor>y\<rfloor> then \<lfloor>y\<rfloor> + 1
            else if even \<lfloor>y\<rfloor> then \<lfloor>y\<rfloor> else \<lfloor>y\<rfloor> + 1)"
  by (simp add: rne_def Let_def)

lemma rne_mono:
  assumes "y1 \<le> y2"
  shows "rne y1 \<le> rne y2"
proof (cases "\<lfloor>y1\<rfloor> = \<lfloor>y2\<rfloor>")
  case True
  define f where "f = \<lfloor>y2\<rfloor>"
  have d: "y1 - of_int f \<le> y2 - of_int f" using assms by simp
  consider "y2 - of_int f < 1 / 2" | "y2 - of_int f = 1 / 2" | "1 / 2 < y2 - of_int f"
    by linarith
  then show ?thesis
  proof cases
    case 1
    with d have "y1 - of_int f < 1 / 2" by simp
    with 1 show ?thesis unfolding rne_frac True f_def [symmetric] by simp
  next
    case 2
    show ?thesis
    proof (cases "y1 - of_int f < 1 / 2")
      case True
      with 2 show ?thesis unfolding rne_frac \<open>\<lfloor>y1\<rfloor> = \<lfloor>y2\<rfloor>\<close> f_def [symmetric] by simp
    next
      case False
      with d 2 have "y1 - of_int f = 1 / 2" by simp
      with 2 show ?thesis unfolding rne_frac \<open>\<lfloor>y1\<rfloor> = \<lfloor>y2\<rfloor>\<close> f_def [symmetric] by simp
    qed
  next
    case 3
    then have "rne y2 = f + 1" unfolding rne_frac f_def [symmetric] by simp
    moreover have "rne y1 \<le> f + 1" using rne_cases [of y1] True by (auto simp: f_def)
    ultimately show ?thesis by simp
  qed
next
  case False
  with assms have "\<lfloor>y1\<rfloor> < \<lfloor>y2\<rfloor>" using floor_mono [OF assms] by simp
  moreover have "rne y1 \<le> \<lfloor>y1\<rfloor> + 1" using rne_cases [of y1] by auto
  moreover have "\<lfloor>y2\<rfloor> \<le> rne y2" using rne_cases [of y2] by auto
  ultimately show ?thesis by simp
qed

lemma rne_le: "y \<le> of_int k \<Longrightarrow> rne y \<le> k"
  using rne_mono [of y "of_int k"] by (simp add: rne_of_int)

lemma rne_ge: "of_int k \<le> y \<Longrightarrow> k \<le> rne y"
  using rne_mono [of "of_int k" y] by (simp add: rne_of_int)

lemma rne_minus: "rne (- y) = - rne y"
proof (cases "y = of_int \<lfloor>y\<rfloor>")
  case True
  then obtain k where k: "y = of_int k" ..
  have "rne (of_int (- k)) = - k" by (rule rne_of_int)
  then show ?thesis unfolding k by (simp add: rne_of_int)
next
  case False
  define f where "f = \<lfloor>y\<rfloor>"
  have lo: "of_int f < y"
  proof (rule ccontr)
    assume "\<not> of_int f < y"
    then have "y \<le> of_int f" by simp
    moreover have "of_int f \<le> y" unfolding f_def by (rule of_int_floor_le)
    ultimately have "y = of_int f" by (rule antisym)
    with False show False unfolding f_def by (rule notE)
  qed
  have hi: "y \<le> of_int (f + 1)" unfolding f_def by linarith
  have "\<lfloor>- y\<rfloor> = - \<lceil>y\<rceil>" by (simp add: ceiling_def)
  also have "\<lceil>y\<rceil> = f + 1" using lo hi by (intro ceiling_unique) simp_all
  finally have c: "\<lfloor>- y\<rfloor> = - f - 1" by simp
  consider "y - of_int f < 1 / 2" | "y - of_int f = 1 / 2" | "1 / 2 < y - of_int f"
    by linarith
  then show ?thesis
  proof cases
    case 1
    have l: "rne (- y) = - f" unfolding rne_frac c using 1 lo by simp
    have r: "rne y = f" unfolding rne_frac f_def [symmetric] using 1 by simp
    show ?thesis by (simp add: l r)
  next
    case 2
    have l: "rne (- y) = (if even (- f - 1) then - f - 1 else - f)"
      unfolding rne_frac c using 2 by simp
    have r: "rne y = (if even f then f else f + 1)"
      unfolding rne_frac f_def [symmetric] using 2 by simp
    show ?thesis by (simp add: l r)
  next
    case 3
    have l: "rne (- y) = - f - 1" unfolding rne_frac c using 3 by simp
    have r: "rne y = f + 1" unfolding rne_frac f_def [symmetric] using 3 by simp
    show ?thesis by (simp add: l r)
  qed
qed

lemma exp_search_ge: "e0 \<le> exp_search k e0 a"
proof (induction k arbitrary: e0)
  case 0
  show ?case by simp
next
  case (Suc k)
  have "e0 + 1 \<le> exp_search k (e0 + 1) a" by (rule Suc.IH)
  then show ?case by simp
qed

lemma exp_search_mono: "a \<le> b \<Longrightarrow> exp_search k e a \<le> exp_search k e b"
proof (induction k arbitrary: e)
  case 0
  show ?case by simp
next
  case (Suc k)
  have ge: "e + 1 \<le> exp_search k (e + 1) b" by (rule exp_search_ge)
  show ?case using Suc.IH [OF Suc.prems, of "e + 1"] Suc.prems ge by auto
qed

lemma exp_search_above: "e0 < exp_search k e0 a \<Longrightarrow> 2 powi (exp_search k e0 a) \<le> a"
proof (induction k arbitrary: e0)
  case 0
  then show ?case by simp
next
  case (Suc k)
  show ?case
  proof (cases "2 powi (e0 + 1) \<le> a")
    case True
    show ?thesis
    proof (cases "e0 + 1 < exp_search k (e0 + 1) a")
      case True
      then show ?thesis using Suc.IH [of "e0 + 1"] \<open>2 powi (e0 + 1) \<le> a\<close> by simp
    next
      case False
      have "e0 + 1 \<le> exp_search k (e0 + 1) a" by (rule exp_search_ge)
      with False have "exp_search k (e0 + 1) a = e0 + 1" by simp
      then show ?thesis using True by simp
    qed
  next
    case False
    with Suc.prems show ?thesis by simp
  qed
qed

lemma exp_search_below: "exp_search k e0 a < e0 + int k \<Longrightarrow> a < 2 powi (exp_search k e0 a + 1)"
proof (induction k arbitrary: e0)
  case 0
  then show ?case by simp
next
  case (Suc k)
  show ?case
  proof (cases "2 powi (e0 + 1) \<le> a")
    case True
    with Suc.prems have "exp_search k (e0 + 1) a < e0 + 1 + int k" by simp
    then have "a < 2 powi (exp_search k (e0 + 1) a + 1)" by (rule Suc.IH)
    with True show ?thesis by simp
  next
    case False
    then show ?thesis by simp
  qed
qed

lemma exp_search_le: "exp_search k e0 a \<le> e0 + int k"
proof (induction k arbitrary: e0)
  case 0
  show ?case by simp
next
  case (Suc k)
  have "exp_search k (e0 + 1) a \<le> e0 + 1 + int k" by (rule Suc.IH)
  then show ?case by simp
qed

lemma fl_round_minus: "fl_round p emin emax (- x) = - fl_round p emin emax x"
  by (simp add: fl_round_def fl_exp_def Let_def rne_minus)

lemma fl_round_nonneg: "0 \<le> x \<Longrightarrow> 0 \<le> fl_round p emin emax x"
proof -
  assume x: "0 \<le> x"
  define u :: real where "u = 2 powi (fl_exp emin emax x - int p + 1)"
  have u: "0 < u" by (simp add: u_def)
  have "of_int 0 \<le> x / u" using x u by simp
  then have "0 \<le> rne (x / u)" by (rule rne_ge)
  then show ?thesis unfolding fl_round_def Let_def u_def [symmetric] using u by simp
qed

lemma fl_round_mono_pos:
  assumes x: "0 \<le> x" and xy: "x \<le> y" and p: "0 < p"
  shows "fl_round p emin emax x \<le> fl_round p emin emax y"
proof -
  define Ex where "Ex = fl_exp emin emax x"
  define Ey where "Ey = fl_exp emin emax y"
  define ux :: real where "ux = 2 powi (Ex - int p + 1)"
  define uy :: real where "uy = 2 powi (Ey - int p + 1)"
  have ux: "0 < ux" and uy: "0 < uy" by (simp_all add: ux_def uy_def)
  have fx: "fl_round p emin emax x = of_int (rne (x / ux)) * ux"
    by (simp add: fl_round_def Let_def ux_def Ex_def)
  have fy: "fl_round p emin emax y = of_int (rne (y / uy)) * uy"
    by (simp add: fl_round_def Let_def uy_def Ey_def)
  have ax: "\<bar>x\<bar> = x" and ay: "\<bar>y\<bar> = y" using x xy by simp_all
  have le: "Ex \<le> Ey"
    unfolding Ex_def Ey_def fl_exp_def ax ay using xy by (rule exp_search_mono)
  show ?thesis
  proof (cases "Ex = Ey")
    case True
    then have "ux = uy" by (simp add: ux_def uy_def)
    moreover have "rne (x / uy) \<le> rne (y / uy)"
      using xy uy by (intro rne_mono divide_right_mono) simp_all
    ultimately show ?thesis unfolding fx fy using uy by (simp add: mult_right_mono)
  next
    case False
    with le have lt: "Ex < Ey" by simp
    have "Ey \<le> emin + int (nat (emax - emin))"
      unfolding Ey_def fl_exp_def by (rule exp_search_le)
    with lt have "exp_search (nat (emax - emin)) emin x < emin + int (nat (emax - emin))"
      unfolding Ex_def fl_exp_def ax by simp
    then have "x < 2 powi (exp_search (nat (emax - emin)) emin x + 1)"
      by (rule exp_search_below)
    then have xb: "x < 2 powi (Ex + 1)" unfolding Ex_def fl_exp_def ax .
    have "emin \<le> Ex" unfolding Ex_def fl_exp_def by (rule exp_search_ge)
    with lt have "emin < exp_search (nat (emax - emin)) emin y"
      unfolding Ey_def fl_exp_def ay by simp
    then have "2 powi (exp_search (nat (emax - emin)) emin y) \<le> y"
      by (rule exp_search_above)
    then have yb: "2 powi Ey \<le> y" unfolding Ey_def fl_exp_def ay .
    have e1: "(2::real) powi (Ex + 1) = 2 ^ p * ux"
    proof -
      have "Ex + 1 = int p + (Ex - int p + 1)" by simp
      then have "(2::real) powi (Ex + 1) = 2 powi (int p + (Ex - int p + 1))" by (rule arg_cong)
      also have "\<dots> = 2 powi (int p) * 2 powi (Ex - int p + 1)"
        by (rule power_int_add) simp
      finally show ?thesis unfolding ux_def by (simp only: power_int_of_nat)
    qed
    obtain p' where p': "p = Suc p'" using p by (cases p) auto
    have e2: "(2::real) powi Ey = 2 ^ p' * uy"
    proof -
      have "Ey = int p' + (Ey - int p + 1)" by (simp add: p')
      then have "(2::real) powi Ey = 2 powi (int p' + (Ey - int p + 1))" by (rule arg_cong)
      also have "\<dots> = 2 powi (int p') * 2 powi (Ey - int p + 1)"
        by (rule power_int_add) simp
      finally show ?thesis unfolding uy_def by (simp only: power_int_of_nat)
    qed
    have "x / ux \<le> of_int (2 ^ p)" using xb ux unfolding e1 by (simp add: pos_divide_le_eq)
    then have "rne (x / ux) \<le> 2 ^ p" by (rule rne_le)
    then have "real_of_int (rne (x / ux)) \<le> 2 ^ p"
      by (metis of_int_le_numeral_power_cancel_iff)
    then have a: "fl_round p emin emax x \<le> 2 powi (Ex + 1)"
      unfolding fx e1 using ux by (simp add: mult_right_mono)
    have "of_int (2 ^ p') \<le> y / uy" using yb uy unfolding e2 by (simp add: pos_le_divide_eq)
    then have "2 ^ p' \<le> rne (y / uy)" by (rule rne_ge)
    then have "2 ^ p' \<le> real_of_int (rne (y / uy))"
      by (metis numeral_power_le_of_int_cancel_iff)
    then have b: "2 powi Ey \<le> fl_round p emin emax y"
      unfolding fy e2 using uy by (simp add: mult_right_mono)
    have "(2::real) powi (Ex + 1) \<le> 2 powi Ey"
      using lt by (intro power_int_increasing) simp_all
    with a b show ?thesis by simp
  qed
qed

lemma fl_round_mono:
  assumes xy: "x \<le> y" and p: "0 < p"
  shows "fl_round p emin emax x \<le> fl_round p emin emax y"
proof (cases "0 \<le> x")
  case True
  then show ?thesis using xy p by (rule fl_round_mono_pos)
next
  case False
  show ?thesis
  proof (cases "0 \<le> y")
    case True
    have "0 \<le> fl_round p emin emax (- x)" using False by (intro fl_round_nonneg) simp
    then have "fl_round p emin emax x \<le> 0" by (simp add: fl_round_minus)
    moreover have "0 \<le> fl_round p emin emax y" using True by (rule fl_round_nonneg)
    ultimately show ?thesis by simp
  next
    case False
    then have "0 \<le> - y" "- y \<le> - x" using xy by simp_all
    then have "fl_round p emin emax (- y) \<le> fl_round p emin emax (- x)"
      using p by (rule fl_round_mono_pos)
    then show ?thesis by (simp add: fl_round_minus)
  qed
qed

lemma fl32_mono: "x \<le> y \<Longrightarrow> fl32 x \<le> fl32 y"
  unfolding fl32_def by (rule fl_round_mono) simp_all

lemma fl32_nonneg: "0 \<le> x \<Longrightarrow> 0 \<le> fl32 x"
  unfolding fl32_def by (rule fl_round_nonneg)

lemma fl32_0: "fl32 0 = 0"
  unfolding fl32_def by (rule fl_round_0) simp

lemma fl32_1: "fl32 1 = 1"
  using fl32_int [of 1] by simp

lemma fl32_numeral: "\<bar>numeral k :: int\<bar> < 2 ^ 24 \<Longrightarrow> fl32 (numeral k) = numeral k"
  using fl32_int [of "numeral k"] by simp

lemma fl32_neg_numeral: "\<bar>numeral k :: int\<bar> < 2 ^ 24 \<Longrightarrow> fl32 (- numeral k) = - numeral k"
  using fl32_int [of "- numeral k"] by simp

lemma fl32_neg_1: "fl32 (- 1) = - 1"
  using fl32_int [of "- 1"] by simp

lemmas f32_ops = f32_add_def f32_sub_def f32_mul_def f32_div_def

lemmas fl32_small = fl32_0 fl32_1 fl32_neg_1 fl32_numeral fl32_neg_numeral

section \<open>Reads outside the automaton grid\<close>

lemma xyarray_get_outside:
  "x < 0 \<or> y < 0 \<or> width \<le> x \<or> width \<le> y \<Longrightarrow> xyarray_get arr width x y = 0"
  by (auto simp: xyarray_get_def)

lemma xyarray_get_inside:
  "0 \<le> x \<Longrightarrow> x < width \<Longrightarrow> 0 \<le> y \<Longrightarrow> y < width \<Longrightarrow>
   xyarray_get arr width x y = arr ! nat (y * width + x)"
  by (simp add: xyarray_get_def)

text \<open>
  Claim C4, as stated, fails. On the 3 by 3 grid whose cells \<open>(0, 1)\<close> and \<open>(2, 1)\<close> are
  live (values 2 and 1), the read of \<open>(3, 1)\<close> is 0 and not the value 2 of the cell \<open>(0, 1)\<close>
  it would wrap to, and no strategy counts a neighbour of \<open>(2, 1)\<close> or of \<open>(0, 1)\<close> across
  the edge.
\<close>

theorem xyarray_get_wrap_counterexample:
  "xyarray_get [0, 0, 0, 2, 0, 1, 0, 0, 0] 3 3 1 \<noteq>
     xyarray_get [0, 0, 0, 2, 0, 1, 0, 0, 0] 3 (3 mod 3) (1 mod 3)
   \<and> xyarray_get [0, 0, 0, 2, 0, 1, 0, 0, 0] 3 (- 1) 1 \<noteq>
     xyarray_get [0, 0, 0, 2, 0, 1, 0, 0, 0] 3 (- 1 mod 3) (1 mod 3)
   \<and> neigh_vn1 [0, 0, 0, 2, 0, 1, 0, 0, 0] 3 2 1 = 0
   \<and> neigh_m1 [0, 0, 0, 2, 0, 1, 0, 0, 0] 3 2 1 = 0
   \<and> neigh_vnv [0, 0, 0, 2, 0, 1, 0, 0, 0] 3 2 1 = 0
   \<and> neigh_mv [0, 0, 0, 2, 0, 1, 0, 0, 0] 3 2 1 = 0
   \<and> neigh_vn1 [0, 0, 0, 2, 0, 1, 0, 0, 0] 3 0 1 = 0
   \<and> neigh_m1 [0, 0, 0, 2, 0, 1, 0, 0, 0] 3 0 1 = 0"
  by (simp add: xyarray_get_def neigh_vn1_def neigh_m1_def neigh_vnv_def neigh_mv_def
      notnot_def c_bool_def)

text \<open>
  Claim C4, as amended. A read at a coordinate outside \<open>[0, width)\<close> in \<open>x\<close> or \<open>y\<close> returns 0,
  whatever the grid holds; a read inside returns the stored cell. So under each of the
  four strategies the cell at \<open>x = side - 1\<close> gets nothing from its three neighbours at
  \<open>x = side\<close>: the count is that of the remaining neighbours.
\<close>

theorem xyarray_get_zero_outside:
  "(x < 0 \<or> y < 0 \<or> width \<le> x \<or> width \<le> y \<longrightarrow> xyarray_get arr width x y = 0)
   \<and> (0 \<le> x \<and> x < width \<and> 0 \<le> y \<and> y < width \<longrightarrow>
        xyarray_get arr width x y = arr ! nat (y * width + x))
   \<and> neigh_vn1 arr side (side - 1) y =
        notnot (xyarray_get arr side (side - 2) y) +
        notnot (xyarray_get arr side (side - 1) (y + 1)) +
        notnot (xyarray_get arr side (side - 1) (y - 1))
   \<and> neigh_m1 arr side (side - 1) y =
        neigh_vn1 arr side (side - 1) y +
        notnot (xyarray_get arr side (side - 2) (y + 1)) +
        notnot (xyarray_get arr side (side - 2) (y - 1))
   \<and> neigh_vnv arr side (side - 1) y =
        c_bool (xyarray_get arr side (side - 2) y > xyarray_get arr side (side - 1) y) +
        c_bool (xyarray_get arr side (side - 1) (y + 1) > xyarray_get arr side (side - 1) y) +
        c_bool (xyarray_get arr side (side - 1) (y - 1) > xyarray_get arr side (side - 1) y)
   \<and> neigh_mv arr side (side - 1) y =
        neigh_vnv arr side (side - 1) y +
        c_bool (xyarray_get arr side (side - 2) (y + 1) > xyarray_get arr side (side - 1) y) +
        c_bool (xyarray_get arr side (side - 2) (y - 1) > xyarray_get arr side (side - 1) y)"
proof -
  have out: "\<And>y'. xyarray_get arr side (side - 1 + 1) y' = 0"
    by (simp add: xyarray_get_outside)
  have two: "side - 1 - 1 = side - 2" by simp
  show ?thesis
    by (simp add: xyarray_get_outside xyarray_get_inside neigh_vn1_def neigh_m1_def
        neigh_vnv_def neigh_mv_def Let_def out two notnot_def c_bool_def)
qed

theorem xyarray_get_zero_outside_witness:
  "xyarray_get [0, 0, 0, 2, 0, 1, 0, 0, 0] 3 3 1 = 0
   \<and> xyarray_get [0, 0, 0, 2, 0, 1, 0, 0, 0] 3 0 1 = 2
   \<and> neigh_vn1 [0, 0, 0, 2, 0, 1, 0, 0, 0] 3 (3 - 1) 1 = 0"
  using
    xyarray_get_zero_outside [where x = 3 and y = 1 and width = 3 and side = 3
      and arr = "[0, 0, 0, 2, 0, 1, 0, 0, 0]"]
    xyarray_get_zero_outside [where x = 0 and y = 1 and width = 3 and side = 3
      and arr = "[0, 0, 0, 2, 0, 1, 0, 0, 0]"]
  by (simp add: notnot_def xyarray_get_def)

section \<open>The automaton step works in place\<close>

text \<open>
  Claim C5, as stated, fails. With the maze rule on the 3 by 3 grid whose cells \<open>(0, 0)\<close>
  and \<open>(1, 0)\<close> are live, the cell \<open>(2, 0)\<close> (index 2) has one live neighbour before the
  step and stays dead under the rule applied to the previous grid; the step of the source
  visits it after \<open>(1, 1)\<close> was born in the same iteration, counts two, and gives birth.
\<close>

theorem cell_aut_step_sync_counterexample:
  "cell_aut_step ca_test [4, 4, 0, 0, 0, 0, 0, 0, 0] 3 \<noteq>
   cell_aut_step_sync ca_test [4, 4, 0, 0, 0, 0, 0, 0, 0] 3"
proof -
  have "cell_aut_step ca_test [4, 4, 0, 0, 0, 0, 0, 0, 0] 3 ! 2 = 4"
    by code_simp
  moreover have "cell_aut_step_sync ca_test [4, 4, 0, 0, 0, 0, 0, 0, 0] 3 ! 2 = 0"
    by code_simp
  ultimately show ?thesis by force
qed

lemma cell_index: "i < nat side \<Longrightarrow> nat (int j * side + int i) = j * nat side + i"
  by (simp add: nat_add_distrib nat_mult_distrib)

lemma cell_aut_cell_length: "length (cell_aut_cell ca side arr i j) = length arr"
  by (simp add: cell_aut_cell_def xyarray_set_def Let_def)

lemma cell_aut_cell_other:
  "i < nat side \<Longrightarrow> k \<noteq> j * nat side + i \<Longrightarrow>
   cell_aut_cell ca side arr (int i) (int j) ! k = arr ! k"
  by (simp add: cell_aut_cell_def xyarray_set_def Let_def cell_index)

lemma cell_aut_run_Nil: "cell_aut_run ca side [] arr = arr"
  by (simp add: cell_aut_run_def)

lemma cell_aut_run_Cons:
  "cell_aut_run ca side (c # cs) arr =
   cell_aut_run ca side cs (cell_aut_cell ca side arr (int (fst c)) (int (snd c)))"
  by (simp add: cell_aut_run_def split: prod.splits)

lemma cell_aut_run_append:
  "cell_aut_run ca side (cs @ ds) arr = cell_aut_run ca side ds (cell_aut_run ca side cs arr)"
  by (simp add: cell_aut_run_def)

lemma cell_slot_inj:
  "i < n \<Longrightarrow> x < n \<Longrightarrow> j * n + i = y * n + x \<Longrightarrow> i = x \<and> j = (y::nat)"
  by (metis add.commute mod_less mod_mult_self3 div_mult_self3 div_less add_cancel_left_left less_nat_zero_code)

lemma cell_aut_run_other:
  "\<forall>c \<in> set cs. fst c < nat side \<Longrightarrow> x < nat side \<Longrightarrow> (x, y) \<notin> set cs \<Longrightarrow>
   cell_aut_run ca side cs arr ! (y * nat side + x) = arr ! (y * nat side + x)"
proof (induction cs arbitrary: arr)
  case Nil
  show ?case by (simp add: cell_aut_run_Nil)
next
  case (Cons c cs)
  have ne: "y * nat side + x \<noteq> snd c * nat side + fst c"
  proof
    assume "y * nat side + x = snd c * nat side + fst c"
    with Cons.prems have "x = fst c \<and> y = snd c"
      using cell_slot_inj [of x "nat side" "fst c" y "snd c"] by simp
    with Cons.prems show False by (cases c) simp
  qed
  have "cell_aut_run ca side (c # cs) arr ! (y * nat side + x) =
        cell_aut_cell ca side arr (int (fst c)) (int (snd c)) ! (y * nat side + x)"
    using Cons.prems by (simp add: cell_aut_run_Cons Cons.IH)
  also have "\<dots> = arr ! (y * nat side + x)"
    using Cons.prems ne by (simp add: cell_aut_cell_other)
  finally show ?case .
qed


lemma cell_order_length: "length (cell_order side) = nat side * nat side"
  by (simp add: cell_order_def)

lemma cell_order_distinct: "distinct (cell_order side)"
  by (simp add: cell_order_def distinct_product)

lemma cell_order_nth:
  "i < nat side \<Longrightarrow> j < nat side \<Longrightarrow> cell_order side ! (i * nat side + j) = (i, j)"
proof -
  assume a: "i < nat side" "j < nat side"
  have "i * nat side + j < nat side * nat side"
  proof -
    have "i * nat side + j < i * nat side + nat side" using a by simp
    also have "\<dots> = Suc i * nat side" by simp
    also have "\<dots> \<le> nat side * nat side" using a by (metis Suc_leI mult.commute mult_le_mono2)
    finally show ?thesis .
  qed
  then show ?thesis using a
    by (simp add: cell_order_def product_nth)
qed

lemma cell_slot_less:
  "i < n \<Longrightarrow> j < n \<Longrightarrow> i * n + j < n * (n::nat)"
proof -
  assume a: "i < n" "j < n"
  have "i * n + j < i * n + n" using a by simp
  also have "\<dots> = Suc i * n" by simp
  also have "\<dots> \<le> n * n" using a by (metis Suc_leI mult.commute mult_le_mono2)
  finally show ?thesis .
qed

lemma cell_order_fst: "c \<in> set (cell_order side) \<Longrightarrow> fst c < nat side"
  by (auto simp: cell_order_def)

lemma visited_lex:
  "y < n \<Longrightarrow> j < n \<Longrightarrow> (x * n + y < i * n + j) = (x < i \<or> (x = i \<and> y < (j::nat)))"
proof -
  assume a: "y < n" "j < n"
  show ?thesis
  proof (cases "x < i")
    case True
    then have "Suc x * n \<le> i * n" by (metis Suc_leI mult_le_mono1)
    then show ?thesis using a True by simp
  next
    case False
    show ?thesis
    proof (cases "x = i")
      case True then show ?thesis by simp
    next
      case False
      with \<open>\<not> x < i\<close> have "i < x" by simp
      then have "Suc i * n \<le> x * n" by (metis Suc_leI mult_le_mono1)
      then show ?thesis using a \<open>i < x\<close> by simp
    qed
  qed
qed

lemma cell_order_take_mem:
  assumes "x < nat side" "y < nat side" "m \<le> nat side * nat side"
  shows "((x, y) \<in> set (take m (cell_order side))) = (x * nat side + y < m)"
proof
  assume "(x, y) \<in> set (take m (cell_order side))"
  then obtain k where k: "k < m" "k < length (cell_order side)" "cell_order side ! k = (x, y)"
    by (auto simp: in_set_conv_nth)
  have "cell_order side ! (x * nat side + y) = (x, y)"
    using assms by (simp add: cell_order_nth)
  moreover have "x * nat side + y < length (cell_order side)"
    using assms by (simp add: cell_order_length cell_slot_less)
  ultimately have "k = x * nat side + y"
    using k cell_order_distinct [of side] by (metis nth_eq_iff_index_eq)
  with k show "x * nat side + y < m" by simp
next
  assume lt: "x * nat side + y < m"
  have "take m (cell_order side) ! (x * nat side + y) = (x, y)"
    using lt assms by (simp add: cell_order_nth)
  moreover have "x * nat side + y < length (take m (cell_order side))"
    using lt assms by (simp add: cell_order_length)
  ultimately show "(x, y) \<in> set (take m (cell_order side))"
    by (metis nth_mem)
qed

lemma cell_order_drop_mem:
  assumes "x < nat side" "y < nat side" "x * nat side + y < m"  "m \<le> nat side * nat side"
  shows "(x, y) \<notin> set (drop m (cell_order side))"
proof -
  have "(x, y) \<in> set (take m (cell_order side))"
    using assms by (simp add: cell_order_take_mem)
  moreover have "distinct (take m (cell_order side) @ drop m (cell_order side))"
    by (simp add: cell_order_distinct)
  ultimately show ?thesis by (metis distinct_append disjoint_iff)
qed

lemma cell_aut_step_split:
  "cell_aut_step ca arr side =
   cell_aut_run ca side (drop m (cell_order side)) (cell_aut_run ca side (take m (cell_order side)) arr)"
  by (metis cell_aut_step_def cell_aut_run_append append_take_drop_id)

text \<open>
  Claim C5, as amended. The step works in place, on the one array. The value stored for
  the cell \<open>(i, j)\<close> is the transition rule applied to the array as it stands when the loops
  reach that cell: there (second conjunct) a cell visited earlier in the same iteration
  (smaller \<open>x\<close>, or the same \<open>x\<close> and smaller \<open>y\<close>) already holds its new value, and every
  other cell still holds its value from before the step.
\<close>

theorem cell_aut_step_in_place:
  assumes "length arr = nat side * nat side" and "i < nat side" and "j < nat side"
  shows "cell_aut_step ca arr side ! (j * nat side + i) =
           cell_aut_cell ca side (cell_aut_upto ca side arr i j) (int i) (int j) ! (j * nat side + i)
         \<and> (\<forall>x < nat side. \<forall>y < nat side.
              cell_aut_upto ca side arr x y ! (j * nat side + i) =
                (if i < x \<or> (i = x \<and> j < y) then cell_aut_step ca arr side ! (j * nat side + i)
                 else arr ! (j * nat side + i)))"
proof
  let ?cs = "cell_order side"
  let ?m = "i * nat side + j"
  have m: "?m < nat side * nat side" using assms by (simp add: cell_slot_less)
  have "drop ?m ?cs = ?cs ! ?m # drop (Suc ?m) ?cs"
    using m by (simp add: Cons_nth_drop_Suc cell_order_length)
  then have d: "drop ?m ?cs = (i, j) # drop (Suc ?m) ?cs"
    using assms by (simp add: cell_order_nth)
  have "(i, j) \<notin> set (drop (Suc ?m) ?cs)"
    using assms m by (intro cell_order_drop_mem) simp_all
  moreover have "\<forall>c \<in> set (drop (Suc ?m) ?cs). fst c < nat side"
    by (meson cell_order_fst in_set_dropD)
  ultimately show "cell_aut_step ca arr side ! (j * nat side + i) =
      cell_aut_cell ca side (cell_aut_upto ca side arr i j) (int i) (int j) ! (j * nat side + i)"
    using assms
    by (simp add: cell_aut_step_split [of ca arr side ?m] d cell_aut_run_Cons
        cell_aut_run_other cell_aut_upto_def)
next
  show "\<forall>x < nat side. \<forall>y < nat side.
          cell_aut_upto ca side arr x y ! (j * nat side + i) =
            (if i < x \<or> (i = x \<and> j < y) then cell_aut_step ca arr side ! (j * nat side + i)
             else arr ! (j * nat side + i))"
  proof (intro allI impI)
    fix x y assume xy: "x < nat side" "y < nat side"
    let ?cs = "cell_order side"
    let ?m = "x * nat side + y"
    have m: "?m \<le> nat side * nat side"
      using xy by (simp add: cell_slot_less less_imp_le)
    have fst_take: "\<forall>c \<in> set (take ?m ?cs). fst c < nat side"
      by (meson cell_order_fst in_set_takeD)
    have fst_drop: "\<forall>c \<in> set (drop ?m ?cs). fst c < nat side"
      by (meson cell_order_fst in_set_dropD)
    show "cell_aut_upto ca side arr x y ! (j * nat side + i) =
            (if i < x \<or> (i = x \<and> j < y) then cell_aut_step ca arr side ! (j * nat side + i)
             else arr ! (j * nat side + i))"
    proof (cases "i * nat side + j < ?m")
      case True
      then have "(i, j) \<notin> set (drop ?m ?cs)"
        using assms m by (intro cell_order_drop_mem) simp_all
      then have "cell_aut_step ca arr side ! (j * nat side + i) =
                 cell_aut_upto ca side arr x y ! (j * nat side + i)"
        using assms fst_drop
        by (simp add: cell_aut_step_split [of ca arr side ?m] cell_aut_run_other cell_aut_upto_def)
      moreover have "i < x \<or> (i = x \<and> j < y)"
        using True assms xy visited_lex [of j "nat side" y i x] by simp
      ultimately show ?thesis by simp
    next
      case False
      then have "(i, j) \<notin> set (take ?m ?cs)"
        using assms m by (simp add: cell_order_take_mem)
      then have "cell_aut_upto ca side arr x y ! (j * nat side + i) = arr ! (j * nat side + i)"
        using assms fst_take by (simp add: cell_aut_run_other cell_aut_upto_def)
      moreover have "\<not> (i < x \<or> (i = x \<and> j < y))"
        using False assms xy visited_lex [of j "nat side" y i x] by simp
      ultimately show ?thesis by auto
    qed
  qed
qed


theorem cell_aut_step_in_place_witness:
  "length [4, 4, 0, 0, 0, 0, 0, 0, 0::nat] = nat 3 * nat 3 \<and> (1::nat) < nat 3
   \<and> cell_aut_step ca_test [4, 4, 0, 0, 0, 0, 0, 0, 0] 3 ! (1 * nat 3 + 1) =
       cell_aut_cell ca_test 3 (cell_aut_upto ca_test 3 [4, 4, 0, 0, 0, 0, 0, 0, 0] 1 1)
         (int 1) (int 1) ! (1 * nat 3 + 1)
   \<and> cell_aut_upto ca_test 3 [4, 4, 0, 0, 0, 0, 0, 0, 0] 2 0 ! (1 * nat 3 + 1) =
       cell_aut_step ca_test [4, 4, 0, 0, 0, 0, 0, 0, 0] 3 ! (1 * nat 3 + 1)
   \<and> cell_aut_upto ca_test 3 [4, 4, 0, 0, 0, 0, 0, 0, 0] 0 2 ! (1 * nat 3 + 1) =
       [4, 4, 0, 0, 0, 0, 0, 0, 0] ! (1 * nat 3 + 1)"
proof -
  have len: "length [4, 4, 0, 0, 0, 0, 0, 0, 0::nat] = nat 3 * nat 3" by simp
  have one: "(1::nat) < nat 3" by simp
  note t = cell_aut_step_in_place [OF len one one, of ca_test]
  have a: "(2::nat) < nat 3" "(0::nat) < nat 3" by simp_all
  from t a have "cell_aut_upto ca_test 3 [4, 4, 0, 0, 0, 0, 0, 0, 0] 2 0 ! (1 * nat 3 + 1) =
       cell_aut_step ca_test [4, 4, 0, 0, 0, 0, 0, 0, 0] 3 ! (1 * nat 3 + 1)"
    by auto
  moreover from t a have "cell_aut_upto ca_test 3 [4, 4, 0, 0, 0, 0, 0, 0, 0] 0 2 ! (1 * nat 3 + 1) =
       [4, 4, 0, 0, 0, 0, 0, 0, 0] ! (1 * nat 3 + 1)"
    by auto
  ultimately show ?thesis using t len one by blast
qed

section \<open>Height queries at the border of the terrain\<close>

lemma nr_vert_minus_1_eq:
  assumes "1 \<le> t_nr_vert t" "t_nr_vert t < 2 ^ 16"
  shows "nr_vert_minus_1 t = t_nr_vert t - 1"
proof -
  obtain k where k: "t_nr_vert t = Suc k" using assms by (cases "t_nr_vert t") auto
  have "nr_vert_minus_1 t = (k + 2 ^ 32) mod 2 ^ 32"
    by (simp add: nr_vert_minus_1_def k)
  also have "\<dots> = k mod 2 ^ 32" by (rule mod_add_self2)
  also have "\<dots> = k" using assms k by simp
  finally show ?thesis using k by simp
qed

lemma map_index_eq:
  assumes a: "0 \<le> gx" "gx \<le> int (t_nr_vert t)" "0 \<le> gz" "gz \<le> int (t_nr_vert t)" "t_nr_vert t < 2 ^ 16"
  shows "map_index t gx gz = nat gx * t_nr_vert t + nat gz"
proof -
  let ?n = "int (t_nr_vert t)"
  have n: "?n \<le> 2 ^ 16 - 1" using a(5) by simp
  have "gx * ?n \<le> ?n * ?n" using a by (simp add: mult_right_mono)
  also have "?n * ?n \<le> (2 ^ 16 - 1) * (2 ^ 16 - 1)" using n by (intro mult_mono) simp_all
  finally have "gx * ?n + gz < 2 ^ 32" using a n by simp
  moreover have "0 \<le> gx * ?n + gz" using a by simp
  ultimately have "(gx * ?n + gz) mod 2 ^ 32 = gx * ?n + gz" by simp
  then show ?thesis using a by (simp add: map_index_def nat_add_distrib nat_mult_distrib)
qed

lemma slot_bound:
  fixes a b n :: nat
  assumes "a < n" "b < n"
  shows "a * n + b < n * n"
proof -
  have "a * n + b < a * n + n" using assms by simp
  also have "\<dots> = Suc a * n" by simp
  also have "\<dots> \<le> n * n" using assms by (intro mult_le_mono1) simp
  finally show ?thesis .
qed

text \<open>
  On a terrain with integral grid lines the conversions, the square and the far edges are
  exact.
\<close>

lemma integral_facts:
  assumes wf: "terrain_wf t m" and ig: "terrain_integral t ox oz q"
  shows "0 < q" and "q < 2 ^ 24" and "t_side t < 2 ^ 24"
    and "real (t_side t) = real q * real (t_nr_vert t - 1)"
    and "fl32 (real (t_side t)) = real (t_side t)"
    and "f32_div (fl32 (real (t_side t))) (fl32 (real (nr_vert_minus_1 t))) = real q"
    and "far_edge (t_x t) (t_side t) = t_x t + real (t_side t)"
    and "far_edge (t_z t) (t_side t) = t_z t + real (t_side t)"
proof -
  let ?n = "t_nr_vert t"
  have n: "2 \<le> ?n" "?n < 2 ^ 16" and s: "0 < t_side t" using wf by (simp_all add: terrain_wf_def)
  have sq: "t_side t = q * (?n - 1)" and ox: "t_x t = of_int ox" and oz: "t_z t = of_int oz"
    and bx: "\<bar>ox\<bar> + int (t_side t) < 2 ^ 24" and bz: "\<bar>oz\<bar> + int (t_side t) < 2 ^ 24"
    using ig unfolding terrain_integral_def by blast+
  show q0: "0 < q" using s sq by (cases q) simp_all
  show s24: "t_side t < 2 ^ 24" using bx by simp
  have "q * 1 \<le> q * (?n - 1)" using n by (intro mult_le_mono2) simp
  then have "q \<le> t_side t" by (simp only: sq mult_1_right)
  then show q24: "q < 2 ^ 24" using s24 by simp
  show sr: "real (t_side t) = real q * real (?n - 1)" by (simp only: sq of_nat_mult)
  show fs: "fl32 (real (t_side t)) = real (t_side t)" using s24 by (rule fl32_nat)
  have m1: "nr_vert_minus_1 t = ?n - 1" using n by (intro nr_vert_minus_1_eq) simp_all
  have fn: "fl32 (real (?n - 1)) = real (?n - 1)" using n by (intro fl32_nat) simp
  have n0: "real (?n - 1) \<noteq> 0" using n by simp
  have "real (t_side t) / real (?n - 1) = real q" unfolding sr using n0 by simp
  then show "f32_div (fl32 (real (t_side t))) (fl32 (real (nr_vert_minus_1 t))) = real q"
    unfolding f32_div_def fs m1 fn using q24 by (simp add: fl32_nat)
  have "fl32 (of_int (ox + int (t_side t))) = of_int (ox + int (t_side t))"
    using bx by (intro fl32_int) simp
  then show "far_edge (t_x t) (t_side t) = t_x t + real (t_side t)"
    unfolding far_edge_def f32_add_def fs ox by simp
  have "fl32 (of_int (oz + int (t_side t))) = of_int (oz + int (t_side t))"
    using bz by (intro fl32_int) simp
  then show "far_edge (t_z t) (t_side t) = t_z t + real (t_side t)"
    unfolding far_edge_def f32_add_def fs oz by simp
qed

text \<open>The cell of a coordinate between the origin and the far edge lies in the grid.\<close>

lemma grid_cell_range:
  assumes q: "0 < q" "q < 2 ^ 24" and s: "s < 2 ^ 24" and sq: "real s = real q * real k"
    and k: "k < 2 ^ 24" and d: "0 \<le> d" "d \<le> real s"
  shows "0 \<le> \<lfloor>f32_div (fl32 d) (real q)\<rfloor>" and "\<lfloor>f32_div (fl32 d) (real q)\<rfloor> \<le> int k"
proof -
  have "fl32 0 \<le> fl32 d" using d(1) by (rule fl32_mono)
  then have d0: "0 \<le> fl32 d" by (simp add: fl32_0)
  have "fl32 d \<le> fl32 (real s)" using d(2) by (rule fl32_mono)
  then have d1: "fl32 d \<le> real s" using s by (simp add: fl32_nat)
  have "fl32 0 \<le> fl32 (fl32 d / real q)" using d0 q by (intro fl32_mono) simp
  then have a: "0 \<le> f32_div (fl32 d) (real q)" by (simp add: fl32_0 f32_div_def)
  have "fl32 d / real q \<le> real s / real q" using d1 q by (intro divide_right_mono) simp_all
  also have "\<dots> = real k" unfolding sq using q by simp
  finally have "fl32 (fl32 d / real q) \<le> fl32 (real k)" by (rule fl32_mono)
  then have b: "f32_div (fl32 d) (real q) \<le> real k" using k by (simp add: fl32_nat f32_div_def)
  show "0 \<le> \<lfloor>f32_div (fl32 d) (real q)\<rfloor>" using a by simp
  have "\<lfloor>f32_div (fl32 d) (real q)\<rfloor> \<le> \<lfloor>real k\<rfloor>" using b by (rule floor_mono)
  then show "\<lfloor>f32_div (fl32 d) (real q)\<rfloor> \<le> int k" by simp
qed

text \<open>
  Claim C6 fails on the code. \<^verbatim>\<open>terrain_height\<close> accepts a query on the far edge
  \<open>x = origin.x + side\<close>: there \<open>gridx = nr_vert - 1\<close>, and the element
  \<open>(gridx + 1) * nr_vert + gridz\<close>, which both triangles read, lies past the end of the height
  map. This holds on every well-formed terrain with integral grid lines, where the
  arithmetic on the far edge is exact, and for every \<open>z\<close> of its range.
\<close>

theorem terrain_height_far_edge:
  assumes wf: "terrain_wf t m" and ig: "terrain_integral t ox oz q"
    and z: "t_z t \<le> z" "z \<le> t_z t + real (t_side t)"
  shows "terrain_in_bounds t (t_x t + real (t_side t)) z
         \<and> (\<exists>k \<in> set (terrain_height_reads t (t_x t + real (t_side t)) z).
               t_nr_vert t * t_nr_vert t \<le> k)
         \<and> terrain_height t (t_x t + real (t_side t)) z = Inl OutOfBounds"
proof -
  let ?n = "t_nr_vert t"
  let ?x = "t_x t + real (t_side t)"
  note f = integral_facts [OF wf ig]
  have n2: "2 \<le> ?n" and n16: "?n < 2 ^ 16" and len: "length m = ?n * ?n" and tm: "t_map t = Some m"
    using wf by (simp_all add: terrain_wf_def)
  have k24: "?n - 1 < 2 ^ 24" using n16 by simp
  obtain gx gz xoff zoff where g: "terrain_grid t ?x z = (gx, gz, xoff, zoff)"
    by (metis prod_cases4)
  have tx: "f32_sub ?x (t_x t) = real (t_side t)" by (simp add: f32_sub_def f(5))
  have "real (t_side t) / real q = real (?n - 1)" unfolding f(4) using f(1) by simp
  then have qx: "f32_div (real (t_side t)) (real q) = real (?n - 1)"
    using k24 by (simp add: f32_div_def fl32_nat)
  have gx: "gx = int ?n - 1"
    using g n2 by (simp add: terrain_grid_def Let_def f(6) tx qx of_nat_diff)
  have gzd: "gz = \<lfloor>f32_div (fl32 (z - t_z t)) (real q)\<rfloor>"
    using g by (simp add: terrain_grid_def Let_def f(6) f32_sub_def)
  have zr: "0 \<le> z - t_z t" "z - t_z t \<le> real (t_side t)" using z by simp_all
  have gz0: "0 \<le> gz" unfolding gzd by (rule grid_cell_range(1) [OF f(1) f(2) f(3) f(4) k24 zr])
  have gz1: "gz \<le> int (?n - 1)"
    unfolding gzd by (rule grid_cell_range(2) [OF f(1) f(2) f(3) f(4) k24 zr])
  have idx: "map_index t (gx + 1) gz = ?n * ?n + nat gz"
    using gx gz0 gz1 n16 map_index_eq [of "gx + 1" t gz] by simp
  have inb: "terrain_in_bounds t ?x z"
    using z by (simp add: terrain_in_bounds_def f(7) f(8))
  have rd: "map_index t (gx + 1) gz \<in> set (terrain_height_reads t ?x z)"
    using g by (simp add: terrain_height_reads_def)
  have r3: "map_read3 m k1 (map_index t (gx + 1) gz) k3 = Inl OutOfBounds"
    "map_read3 m (map_index t (gx + 1) gz) k2 k3 = Inl OutOfBounds" for k1 k2 k3
    using idx len by (simp_all add: map_read3_def)
  have "terrain_height t ?x z = Inl OutOfBounds"
    using g tm z by (simp add: terrain_height_def f(7) f(8) r3)
  with inb rd idx show ?thesis by (intro conjI bexI [of _ "map_index t (gx + 1) gz"]) simp_all
qed

theorem terrain_height_far_edge_witness:
  "terrain_wf terrain_2x2 [0, 0, 0, 0]
   \<and> terrain_integral terrain_2x2 0 0 1
   \<and> terrain_in_bounds terrain_2x2 1 0
   \<and> terrain_height_reads terrain_2x2 1 0 = [2, 4, 3]
   \<and> terrain_height terrain_2x2 1 0 = Inl OutOfBounds"
proof -
  have wf: "terrain_wf terrain_2x2 [0, 0, 0, 0]"
    by (simp add: terrain_wf_def terrain_2x2_def)
  have ig: "terrain_integral terrain_2x2 0 0 1"
    by (simp add: terrain_integral_def terrain_2x2_def)
  have z: "t_z terrain_2x2 \<le> 0" "0 \<le> t_z terrain_2x2 + real (t_side terrain_2x2)"
    by (simp_all add: terrain_2x2_def)
  have e: "t_x terrain_2x2 + real (t_side terrain_2x2) = 1"
    by (simp add: terrain_2x2_def)
  have r: "terrain_height_reads terrain_2x2 1 0 = [2, 4, 3]"
    by (simp add: terrain_height_reads_def terrain_grid_def terrain_2x2_def
        nr_vert_minus_1_def map_index_def f32_ops fl32_small)
  from terrain_height_far_edge [OF wf ig z] wf ig r show ?thesis
    unfolding e by simp
qed

lemma fl32_tie: "fl32 16777219 = 16777220"
  unfolding fl32_def by (subst fl_round_eval [where e = 24]) (simp_all add: rne_def)

theorem terrain_height_outside_counterexample:
  "t_z terrain_far + real (t_side terrain_far) < 16777220
   \<and> terrain_height terrain_far 0 16777220 = Inr 5"
  by (simp add: terrain_height_def terrain_grid_def terrain_far_def nr_vert_minus_1_def
      map_index_def map_read3_def far_edge_def barrycentric_def f32_ops fl32_small fl32_tie)

text \<open>
  Claim C7, amended. For a query outside the rectangle that the bounds test computes,
  \<^verbatim>\<open>terrain_height\<close> returns 0 (and not an error), whatever the terrain holds. The far edges
  of that rectangle are the \<^verbatim>\<open>float\<close> sums of the origin and the side, and the test uses
  the comparisons of the source, so a point on the border is inside.
\<close>

theorem terrain_height_outside:
  "x < t_x t \<or> x > far_edge (t_x t) (t_side t) \<or> z < t_z t \<or> z > far_edge (t_z t) (t_side t)
   \<Longrightarrow> terrain_height t x z = Inr 0"
  by (simp add: terrain_height_def split: prod.splits option.splits)

theorem terrain_height_outside_witness:
  "(16777222::real) > far_edge (t_z terrain_far) (t_side terrain_far)
   \<and> terrain_height terrain_far 0 16777222 = Inr 0"
proof -
  have h: "(16777222::real) > far_edge (t_z terrain_far) (t_side terrain_far)"
    by (simp add: terrain_far_def far_edge_def f32_ops fl32_small fl32_tie)
  then have "(0::real) < t_x terrain_far \<or> 0 > far_edge (t_x terrain_far) (t_side terrain_far)
      \<or> (16777222::real) < t_z terrain_far
      \<or> 16777222 > far_edge (t_z terrain_far) (t_side terrain_far)"
    by simp
  from terrain_height_outside [OF this] h show ?thesis by simp
qed





section \<open>The split decision\<close>

text \<open>
  Claim C9, as stated, fails. In a tree over the 8 by 8 root (area 64), a node of width 2
  and height 6 at depth 1 is below depth 3, so the claim has it split; the width test comes
  first and stops it. A node of 20 by 20 at depth 17 in a root of area 400 exceeds a quarter
  of the root's area and is stopped by the depth limit.
\<close>

theorem bsp_needs_split_counterexample:
  "bsp_needs_split 2 6 64 1 = Inr False \<and> (1::int) < 3
   \<and> bsp_needs_split 20 20 400 17 = Inr False \<and> (20::int) * 20 > 400 sdiv 4"
  by (simp add: bsp_needs_split_def BSP_MIN_WIDTH_def signed_divide_int_def)

text \<open>
  Claim C9, as amended. The stop conditions come first: a node whose width or height is
  2 (twice the minimum cell width), or whose depth exceeds 16, is never split, whatever its
  area and depth. Any other node of positive width and height is split exactly when one
  side is more than four times the other (integer quotient), or its area exceeds a quarter
  of the root's area (integer quotient), or its depth is below 3.
\<close>

theorem bsp_needs_split_cases:
  "(w = 2 \<or> h = 2 \<or> level > 16 \<longrightarrow> bsp_needs_split w h root_area level = Inr False)
   \<and> (w \<noteq> 2 \<and> h \<noteq> 2 \<and> level \<le> 16 \<and> 0 < w \<and> 0 < h \<longrightarrow>
        bsp_needs_split w h root_area level =
          Inr (w sdiv h > 4 \<or> h sdiv w > 4 \<or> w * h > root_area sdiv 4 \<or> level < 3))"
  by (auto simp: bsp_needs_split_def BSP_MIN_WIDTH_def)

theorem bsp_needs_split_cases_witness:
  "bsp_needs_split 2 6 64 1 = Inr False \<and> bsp_needs_split 8 6 64 0 = Inr True
   \<and> bsp_needs_split 3 3 4096 5 = Inr False"
  using bsp_needs_split_cases [of 2 6 1 64] bsp_needs_split_cases [of 8 6 0 64]
    bsp_needs_split_cases [of 3 3 5 4096]
  by (simp add: signed_divide_int_def)

section \<open>The seed height of a coordinate\<close>

lemma next48_less: "next48 X < 2 ^ 48"
  by (simp add: next48_def)

lemma get_rand_height_value:
  "fst (get_rand_height t x z st) =
   real (next48 (nat (take_bit 32 (xor (t_seed t) (x + z * 43210))) * 2 ^ 16 + 0x330E)) / 2 ^ 48 * 2 - 1"
  by (simp add: get_rand_height_def drand48_def srand48_def)

text \<open>
  Claim C10. The value of \<^verbatim>\<open>get_rand_height\<close> does not depend on the state in which the
  generator is found: the call reseeds it from the terrain seed and the coordinates before
  it draws. So two calls with the same inputs return the same value, whatever was drawn
  between them (here: one other coordinate), and the value lies in \<open>[-1, 1]\<close>.
\<close>

theorem get_rand_height_transparent:
  "fst (get_rand_height t x z st) = fst (get_rand_height t x z st')
   \<and> fst (get_rand_height t x z (snd (get_rand_height t x' z' st))) = fst (get_rand_height t x z st)
   \<and> - 1 \<le> fst (get_rand_height t x z st) \<and> fst (get_rand_height t x z st) \<le> 1"
proof -
  let ?X = "next48 (nat (take_bit 32 (xor (t_seed t) (x + z * 43210))) * 2 ^ 16 + 0x330E)"
  have "real ?X < 2 ^ 48"
    using next48_less [of "nat (take_bit 32 (xor (t_seed t) (x + z * 43210))) * 2 ^ 16 + 0x330E"]
    by (metis of_nat_less_iff of_nat_numeral of_nat_power)
  then have "real ?X / 2 ^ 48 * 2 - 1 \<le> 1" by simp
  moreover have "- 1 \<le> real ?X / 2 ^ 48 * 2 - 1" by simp
  ultimately show ?thesis by (simp only: get_rand_height_value)
qed

section \<open>A run of the partition\<close>

lemma drand48_rng_at: "drand48 (rng_at X f) = (real (next48 X) / 2 ^ 48, rng_at (next48 X) f)"
  by (simp add: drand48_def rng_at_def)

lemma lrand48_rng_at: "lrand48 (rng_at X f) = (int (next48 X div 2 ^ 17), rng_at (next48 X) f)"
  by (simp add: lrand48_def rng_at_def)

lemma rand_rng_at: "rand (rng_at X f) = (int (f 0), rng_at X (\<lambda>k. f (Suc k)))"
  by (simp add: rand_def rng_at_def)

lemma srand48_rng_at: "srand48 s (rng_at X f) = rng_at (nat (take_bit 32 s) * 2 ^ 16 + 0x330E) f"
  by (simp add: srand48_def rng_at_def)

lemma rng_at_x48_update: "(rng_at X f)\<lparr>x48 := Y\<rparr> = rng_at Y f"
  by (simp add: rng_at_def)

lemma terrain_bsp_cb_rng_at:
  "terrain_bsp_cb (Leaf x y w h a0 o0) level (rng_at X f) =
     (Leaf x y w h
        (fl32 (c_min (fl64 (real (next48 X) / 2 ^ 48 * AMPLITUDE))
                 (fl32 (of_int (16 - level) * 3))))
        (and (int (f 0)) 3 + 3),
      rng_at (next48 X) (\<lambda>k. f (Suc k)))"
  by (simp add: terrain_bsp_cb_def drand48_rng_at rand_rng_at set_amp_oct_def)

text \<open>
  One node of \<^verbatim>\<open>bsp_part_one\<close>, as a rule: the draw, the direction, the two children and
  what becomes of each of them.
\<close>

lemma bsp_part_one_node:
  assumes "drand48 st = (frd, sta)"
    and "bsp_vertical w h level = Inr v"
    and "bsp_children x y w h v (clampd frd (fl64 0.2) (fl64 0.8)) = (a, b)"
    and "bsp_needs_split (bsp_w a) (bsp_h a) ra level = Inr sa"
    and "(if sa then bsp_part_one cb ra (bsp_x a) (bsp_y a) (bsp_w a) (bsp_h a) (level + 1) sta
          else Inr (cb a level sta)) = Inr (a', stb)"
    and "bsp_needs_split (bsp_w b) (bsp_h b) ra level = Inr sb"
    and "(if sb then bsp_part_one cb ra (bsp_x b) (bsp_y b) (bsp_w b) (bsp_h b) (level + 1) stb
          else Inr (cb b level stb)) = Inr (b', stc)"
  shows "bsp_part_one cb ra x y w h level st = Inr (Split x y w h 0 0 a' b', stc)"
  using assms by (subst bsp_part_one.simps) simp

lemmas bsp_step = drand48_rng_at next48_def bsp_vertical_def bsp_children_def clampd_def
  c_min_def c_max_def c_trunc_def BSP_MIN_WIDTH_def bsp_needs_split_def signed_divide_int_def
  terrain_bsp_cb_rng_at AMPLITUDE_def fl32_numeral

text \<open>
  The roundings of the partition of the 9 by 9 grid for the seed 18: the two bounds of the
  fraction, the products of the fractions and the sides, and the amplitudes of the leaves.
\<close>

lemma fl64_bsp_seed18_1:
  "x = 1 / 5 \<Longrightarrow> fl64 x = 3602879701896397 / 18014398509481984"
  unfolding fl64_def by (simp only:) (subst fl_round_eval [where e = "- 3"], simp_all add: rne_def)

lemma fl64_bsp_seed18_2:
  "x = 4 / 5 \<Longrightarrow> fl64 x = 3602879701896397 / 4503599627370496"
  unfolding fl64_def by (simp only:) (subst fl_round_eval [where e = "- 1"], simp_all add: rne_def)

lemma fl64_bsp_seed18_3:
  "x = 32425917317067573 / 4503599627370496 \<Longrightarrow> fl64 x = 8106479329266893 /
    1125899906842624"
  unfolding fl64_def by (simp only:) (subst fl_round_eval [where e = 2], simp_all add: rne_def)

lemma fl64_bsp_seed18_4:
  "x = 136964774809575 / 35184372088832 \<Longrightarrow> fl64 x = 136964774809575 /
    35184372088832"
  unfolding fl64_def by (simp only:) (subst fl_round_eval [where e = 1], simp_all add: rne_def)

lemma fl64_bsp_seed18_5:
  "x = 765257973376757 / 281474976710656 \<Longrightarrow> fl64 x = 765257973376757 /
    281474976710656"
  unfolding fl64_def by (simp only:) (subst fl_round_eval [where e = 1], simp_all add: rne_def)

lemma fl64_bsp_seed18_6:
  "x = 35161809498489 / 17592186044416 \<Longrightarrow> fl64 x = 35161809498489 /
    17592186044416"
  unfolding fl64_def by (simp only:) (subst fl_round_eval [where e = 0], simp_all add: rne_def)

lemma fl32_bsp_seed18_7:
  "x = 35161809498489 / 17592186044416 \<Longrightarrow> fl32 x = 16766457 / 8388608"
  unfolding fl32_def by (simp only:) (subst fl_round_eval [where e = 0], simp_all add: rne_def)

lemma fl64_bsp_seed18_8:
  "x = 307919254103871 / 281474976710656 \<Longrightarrow> fl64 x = 307919254103871 /
    281474976710656"
  unfolding fl64_def by (simp only:) (subst fl_round_eval [where e = 0], simp_all add: rne_def)

lemma fl64_bsp_seed18_9:
  "x = 236867182259195 / 70368744177664 \<Longrightarrow> fl64 x = 236867182259195 /
    70368744177664"
  unfolding fl64_def by (simp only:) (subst fl_round_eval [where e = 1], simp_all add: rne_def)

lemma fl64_bsp_seed18_10:
  "x = 171505714304599 / 35184372088832 \<Longrightarrow> fl64 x = 171505714304599 /
    35184372088832"
  unfolding fl64_def by (simp only:) (subst fl_round_eval [where e = 2], simp_all add: rne_def)

lemma fl32_bsp_seed18_11:
  "x = 171505714304599 / 35184372088832 \<Longrightarrow> fl32 x = 10222537 / 2097152"
  unfolding fl32_def by (simp only:) (subst fl_round_eval [where e = 2], simp_all add: rne_def)

lemma fl64_bsp_seed18_12:
  "x = 78642257827467 / 17592186044416 \<Longrightarrow> fl64 x = 78642257827467 /
    17592186044416"
  unfolding fl64_def by (simp only:) (subst fl_round_eval [where e = 2], simp_all add: rne_def)

lemma fl32_bsp_seed18_13:
  "x = 78642257827467 / 17592186044416 \<Longrightarrow> fl32 x = 1171861 / 262144"
  unfolding fl32_def by (simp only:) (subst fl_round_eval [where e = 2], simp_all add: rne_def)

lemma fl64_bsp_seed18_14:
  "x = 183684684576361 / 35184372088832 \<Longrightarrow> fl64 x = 183684684576361 /
    35184372088832"
  unfolding fl64_def by (simp only:) (subst fl_round_eval [where e = 2], simp_all add: rne_def)

lemma fl32_bsp_seed18_15:
  "x = 183684684576361 / 35184372088832 \<Longrightarrow> fl32 x = 2737115 / 524288"
  unfolding fl32_def by (simp only:) (subst fl_round_eval [where e = 2], simp_all add: rne_def)

lemma fl64_bsp_seed18_16:
  "x = 25220157913274779 / 4503599627370496 \<Longrightarrow> fl64 x = 6305039478318695 /
    1125899906842624"
  unfolding fl64_def by (simp only:) (subst fl_round_eval [where e = 2], simp_all add: rne_def)

lemma fl64_bsp_seed18_17:
  "x = 624015926244705 / 140737488355328 \<Longrightarrow> fl64 x = 624015926244705 /
    140737488355328"
  unfolding fl64_def by (simp only:) (subst fl_round_eval [where e = 2], simp_all add: rne_def)

lemma fl64_bsp_seed18_18:
  "x = 43182825208509 / 17592186044416 \<Longrightarrow> fl64 x = 43182825208509 /
    17592186044416"
  unfolding fl64_def by (simp only:) (subst fl_round_eval [where e = 1], simp_all add: rne_def)

lemma fl32_bsp_seed18_19:
  "x = 43182825208509 / 17592186044416 \<Longrightarrow> fl32 x = 2573897 / 1048576"
  unfolding fl32_def by (simp only:) (subst fl_round_eval [where e = 1], simp_all add: rne_def)

lemma fl64_bsp_seed18_20:
  "x = 262656235741437 / 35184372088832 \<Longrightarrow> fl64 x = 262656235741437 /
    35184372088832"
  unfolding fl64_def by (simp only:) (subst fl_round_eval [where e = 2], simp_all add: rne_def)

lemma fl32_bsp_seed18_21:
  "x = 262656235741437 / 35184372088832 \<Longrightarrow> fl32 x = 3913883 / 524288"
  unfolding fl32_def by (simp only:) (subst fl_round_eval [where e = 2], simp_all add: rne_def)

lemma fl64_bsp_seed18_22:
  "x = 51455211771505 / 8796093022208 \<Longrightarrow> fl64 x = 51455211771505 / 8796093022208"
  unfolding fl64_def by (simp only:) (subst fl_round_eval [where e = 2], simp_all add: rne_def)

lemma fl32_bsp_seed18_23:
  "x = 51455211771505 / 8796093022208 \<Longrightarrow> fl32 x = 6133939 / 1048576"
  unfolding fl32_def by (simp only:) (subst fl_round_eval [where e = 2], simp_all add: rne_def)

lemma fl64_bsp_seed18_24:
  "x = 116072689586303 / 35184372088832 \<Longrightarrow> fl64 x = 116072689586303 /
    35184372088832"
  unfolding fl64_def by (simp only:) (subst fl_round_eval [where e = 1], simp_all add: rne_def)

lemma fl32_bsp_seed18_25:
  "x = 116072689586303 / 35184372088832 \<Longrightarrow> fl32 x = 13836943 / 4194304"
  unfolding fl32_def by (simp only:) (subst fl_round_eval [where e = 1], simp_all add: rne_def)

lemmas bsp_seed18_floats = fl64_bsp_seed18_1 fl64_bsp_seed18_2 fl64_bsp_seed18_3
  fl64_bsp_seed18_4 fl64_bsp_seed18_5 fl64_bsp_seed18_6 fl32_bsp_seed18_7 fl64_bsp_seed18_8
  fl64_bsp_seed18_9 fl64_bsp_seed18_10 fl32_bsp_seed18_11 fl64_bsp_seed18_12 fl32_bsp_seed18_13
  fl64_bsp_seed18_14 fl32_bsp_seed18_15 fl64_bsp_seed18_16 fl64_bsp_seed18_17 fl64_bsp_seed18_18
  fl32_bsp_seed18_19 fl64_bsp_seed18_20 fl32_bsp_seed18_21 fl64_bsp_seed18_22 fl32_bsp_seed18_23
  fl64_bsp_seed18_24 fl32_bsp_seed18_25

text \<open>
  The partition of the 9 by 9 grid for the seed 18, node by node from the deepest one: the
  state of the generator at the entry of each node is the one that the nodes before it
  leave.
\<close>

lemma bsp_seed18_1:
  "bsp_part_one terrain_bsp_cb 81 0 2 1 5 4 (rng_at 102639751367957 f) =
     Inr (Split 0 2 1 5 0 0 (Leaf 0 2 1 3 (10222537 / 2097152) (and (int (f 0)) 3 + 3)) (Leaf 0
       5 1 2 (1171861 / 262144) (and (int (f (Suc 0))) 3 + 3)),
          rng_at 157284515654934 (\<lambda>k. f (Suc (Suc k))))"
  by (rule bsp_part_one_node [where
        frd = "189493745807356 / 2 ^ 48" and
        sta = "rng_at 189493745807356 f" and
        v = "False" and
        a = "Leaf 0 2 1 3 0 0" and
        b = "Leaf 0 5 1 2 0 0" and
        sa = "False" and
        a' = "Leaf 0 2 1 3 (10222537 / 2097152) (and (int (f 0)) 3 + 3)" and
        stb = "rng_at 171505714304599 (\<lambda>k. f (Suc k))" and
        sb = "False" and
        b' = "Leaf 0 5 1 2 (1171861 / 262144) (and (int (f (Suc 0))) 3 + 3)" and
        stc = "rng_at 157284515654934 (\<lambda>k. f (Suc (Suc k)))"])
     (simp_all add: bsp_step bsp_seed18_floats)

lemma bsp_seed18_2:
  "bsp_part_one terrain_bsp_cb 81 0 2 3 5 3 (rng_at 70323618996978 f) =
     Inr (Split 0 2 3 5 0 0 (Split 0 2 1 5 0 0 (Leaf 0 2 1 3 (10222537 / 2097152) (and (int (f
       0)) 3 + 3)) (Leaf 0 5 1 2 (1171861 / 262144) (and (int (f (Suc 0))) 3 + 3))) (Leaf 1 2 2
       5 (2737115 / 524288) (and (int (f (Suc (Suc 0)))) 3 + 3)),
          rng_at 183684684576361 (\<lambda>k. f (Suc (Suc (Suc k)))))"
  by (rule bsp_part_one_node [where
        frd = "102639751367957 / 2 ^ 48" and
        sta = "rng_at 102639751367957 f" and
        v = "True" and
        a = "Leaf 0 2 1 5 0 0" and
        b = "Leaf 1 2 2 5 0 0" and
        sa = "True" and
        a' = "Split 0 2 1 5 0 0 (Leaf 0 2 1 3 (10222537 / 2097152) (and (int (f 0)) 3 + 3))
          (Leaf 0 5 1 2 (1171861 / 262144) (and (int (f (Suc 0))) 3 + 3))" and
        stb = "rng_at 157284515654934 (\<lambda>k. f (Suc (Suc k)))" and
        sb = "False" and
        b' = "Leaf 1 2 2 5 (2737115 / 524288) (and (int (f (Suc (Suc 0)))) 3 + 3)" and
        stc = "rng_at 183684684576361 (\<lambda>k. f (Suc (Suc (Suc k))))"])
     (simp_all add: bsp_step bsp_seed18_floats bsp_seed18_1)

lemma bsp_seed18_3:
  "bsp_part_one terrain_bsp_cb 81 0 0 3 7 2 (rng_at 121746466497400 f) =
     Inr (Split 0 0 3 7 0 0 (Leaf 0 0 3 2 (16766457 / 8388608) (and (int (f 0)) 3 + 3)) (Split 0
       2 3 5 0 0 (Split 0 2 1 5 0 0 (Leaf 0 2 1 3 (10222537 / 2097152) (and (int (f (Suc 0))) 3
       + 3)) (Leaf 0 5 1 2 (1171861 / 262144) (and (int (f (Suc (Suc 0)))) 3 + 3))) (Leaf 1 2 2
       5 (2737115 / 524288) (and (int (f (Suc (Suc (Suc 0))))) 3 + 3))),
          rng_at 183684684576361 (\<lambda>k. f (Suc (Suc (Suc (Suc k))))))"
  by (rule bsp_part_one_node [where
        frd = "109322567625251 / 2 ^ 48" and
        sta = "rng_at 109322567625251 f" and
        v = "False" and
        a = "Leaf 0 0 3 2 0 0" and
        b = "Leaf 0 2 3 5 0 0" and
        sa = "False" and
        a' = "Leaf 0 0 3 2 (16766457 / 8388608) (and (int (f 0)) 3 + 3)" and
        stb = "rng_at 70323618996978 (\<lambda>k. f (Suc k))" and
        sb = "True" and
        b' = "Split 0 2 3 5 0 0 (Split 0 2 1 5 0 0 (Leaf 0 2 1 3 (10222537 / 2097152) (and (int
          (f (Suc 0))) 3 + 3)) (Leaf 0 5 1 2 (1171861 / 262144) (and (int (f (Suc (Suc 0)))) 3 +
          3))) (Leaf 1 2 2 5 (2737115 / 524288) (and (int (f (Suc (Suc (Suc 0))))) 3 + 3))" and
        stc = "rng_at 183684684576361 (\<lambda>k. f (Suc (Suc (Suc (Suc k)))))"])
     (simp_all add: bsp_step bsp_seed18_floats bsp_seed18_2)

lemma bsp_seed18_4:
  "bsp_part_one terrain_bsp_cb 81 3 0 6 5 3 (rng_at 260732751593664 f) =
     Inr (Split 3 0 6 5 0 0 (Leaf 3 0 4 5 (2573897 / 1048576) (and (int (f 0)) 3 + 3)) (Leaf 7 0
       2 5 (3913883 / 524288) (and (int (f (Suc 0))) 3 + 3)),
          rng_at 262656235741437 (\<lambda>k. f (Suc (Suc k))))"
  by (rule bsp_part_one_node [where
        frd = "208005308748235 / 2 ^ 48" and
        sta = "rng_at 208005308748235 f" and
        v = "True" and
        a = "Leaf 3 0 4 5 0 0" and
        b = "Leaf 7 0 2 5 0 0" and
        sa = "False" and
        a' = "Leaf 3 0 4 5 (2573897 / 1048576) (and (int (f 0)) 3 + 3)" and
        stb = "rng_at 86365650417018 (\<lambda>k. f (Suc k))" and
        sb = "False" and
        b' = "Leaf 7 0 2 5 (3913883 / 524288) (and (int (f (Suc 0))) 3 + 3)" and
        stc = "rng_at 262656235741437 (\<lambda>k. f (Suc (Suc k)))"])
     (simp_all add: bsp_step bsp_seed18_floats)

lemma bsp_seed18_5:
  "bsp_part_one terrain_bsp_cb 81 3 0 6 7 2 (rng_at 183684684576361 f) =
     Inr (Split 3 0 6 7 0 0 (Split 3 0 6 5 0 0 (Leaf 3 0 4 5 (2573897 / 1048576) (and (int (f
       0)) 3 + 3)) (Leaf 7 0 2 5 (3913883 / 524288) (and (int (f (Suc 0))) 3 + 3))) (Leaf 3 5 6
       2 (6133939 / 1048576) (and (int (f (Suc (Suc 0)))) 3 + 3)),
          rng_at 205820847086020 (\<lambda>k. f (Suc (Suc (Suc k)))))"
  by (rule bsp_part_one_node [where
        frd = "260732751593664 / 2 ^ 48" and
        sta = "rng_at 260732751593664 f" and
        v = "False" and
        a = "Leaf 3 0 6 5 0 0" and
        b = "Leaf 3 5 6 2 0 0" and
        sa = "True" and
        a' = "Split 3 0 6 5 0 0 (Leaf 3 0 4 5 (2573897 / 1048576) (and (int (f 0)) 3 + 3)) (Leaf
          7 0 2 5 (3913883 / 524288) (and (int (f (Suc 0))) 3 + 3))" and
        stb = "rng_at 262656235741437 (\<lambda>k. f (Suc (Suc k)))" and
        sb = "False" and
        b' = "Leaf 3 5 6 2 (6133939 / 1048576) (and (int (f (Suc (Suc 0)))) 3 + 3)" and
        stc = "rng_at 205820847086020 (\<lambda>k. f (Suc (Suc (Suc k))))"])
     (simp_all add: bsp_step bsp_seed18_floats bsp_seed18_4)

lemma bsp_seed18_6:
  "bsp_part_one terrain_bsp_cb 81 0 0 9 7 1 (rng_at 237922238746881 f) =
     Inr (Split 0 0 9 7 0 0 (Split 0 0 3 7 0 0 (Leaf 0 0 3 2 (16766457 / 8388608) (and (int (f
       0)) 3 + 3)) (Split 0 2 3 5 0 0 (Split 0 2 1 5 0 0 (Leaf 0 2 1 3 (10222537 / 2097152) (and
       (int (f (Suc 0))) 3 + 3)) (Leaf 0 5 1 2 (1171861 / 262144) (and (int (f (Suc (Suc 0)))) 3
       + 3))) (Leaf 1 2 2 5 (2737115 / 524288) (and (int (f (Suc (Suc (Suc 0))))) 3 + 3))))
       (Split 3 0 6 7 0 0 (Split 3 0 6 5 0 0 (Leaf 3 0 4 5 (2573897 / 1048576) (and (int (f (Suc
       (Suc (Suc (Suc 0)))))) 3 + 3)) (Leaf 7 0 2 5 (3913883 / 524288) (and (int (f (Suc (Suc
       (Suc (Suc (Suc 0))))))) 3 + 3))) (Leaf 3 5 6 2 (6133939 / 1048576) (and (int (f (Suc (Suc
       (Suc (Suc (Suc (Suc 0)))))))) 3 + 3))),
          rng_at 205820847086020 (\<lambda>k. f (Suc (Suc (Suc (Suc (Suc (Suc (Suc k)))))))))"
  by (rule bsp_part_one_node [where
        frd = "121746466497400 / 2 ^ 48" and
        sta = "rng_at 121746466497400 f" and
        v = "True" and
        a = "Leaf 0 0 3 7 0 0" and
        b = "Leaf 3 0 6 7 0 0" and
        sa = "True" and
        a' = "Split 0 0 3 7 0 0 (Leaf 0 0 3 2 (16766457 / 8388608) (and (int (f 0)) 3 + 3))
          (Split 0 2 3 5 0 0 (Split 0 2 1 5 0 0 (Leaf 0 2 1 3 (10222537 / 2097152) (and (int (f
          (Suc 0))) 3 + 3)) (Leaf 0 5 1 2 (1171861 / 262144) (and (int (f (Suc (Suc 0)))) 3 +
          3))) (Leaf 1 2 2 5 (2737115 / 524288) (and (int (f (Suc (Suc (Suc 0))))) 3 + 3)))" and
        stb = "rng_at 183684684576361 (\<lambda>k. f (Suc (Suc (Suc (Suc k)))))" and
        sb = "True" and
        b' = "Split 3 0 6 7 0 0 (Split 3 0 6 5 0 0 (Leaf 3 0 4 5 (2573897 / 1048576) (and (int
          (f (Suc (Suc (Suc (Suc 0)))))) 3 + 3)) (Leaf 7 0 2 5 (3913883 / 524288) (and (int (f
          (Suc (Suc (Suc (Suc (Suc 0))))))) 3 + 3))) (Leaf 3 5 6 2 (6133939 / 1048576) (and (int
          (f (Suc (Suc (Suc (Suc (Suc (Suc 0)))))))) 3 + 3))" and
        stc = "rng_at 205820847086020 (\<lambda>k. f (Suc (Suc (Suc (Suc (Suc (Suc (Suc
          k))))))))"])
     (simp_all add: bsp_step bsp_seed18_floats bsp_seed18_3 bsp_seed18_5)

lemma bsp_seed18_7:
  "bsp_part_one terrain_bsp_cb 81 0 0 9 9 0 (rng_at 1192718 f) =
     Inr (Split 0 0 9 9 0 0 (Split 0 0 9 7 0 0 (Split 0 0 3 7 0 0 (Leaf 0 0 3 2 (16766457 /
       8388608) (and (int (f 0)) 3 + 3)) (Split 0 2 3 5 0 0 (Split 0 2 1 5 0 0 (Leaf 0 2 1 3
       (10222537 / 2097152) (and (int (f (Suc 0))) 3 + 3)) (Leaf 0 5 1 2 (1171861 / 262144) (and
       (int (f (Suc (Suc 0)))) 3 + 3))) (Leaf 1 2 2 5 (2737115 / 524288) (and (int (f (Suc (Suc
       (Suc 0))))) 3 + 3)))) (Split 3 0 6 7 0 0 (Split 3 0 6 5 0 0 (Leaf 3 0 4 5 (2573897 /
       1048576) (and (int (f (Suc (Suc (Suc (Suc 0)))))) 3 + 3)) (Leaf 7 0 2 5 (3913883 /
       524288) (and (int (f (Suc (Suc (Suc (Suc (Suc 0))))))) 3 + 3))) (Leaf 3 5 6 2 (6133939 /
       1048576) (and (int (f (Suc (Suc (Suc (Suc (Suc (Suc 0)))))))) 3 + 3)))) (Leaf 0 7 9 2
       (13836943 / 4194304) (and (int (f (Suc (Suc (Suc (Suc (Suc (Suc (Suc 0))))))))) 3 + 3)),
          rng_at 116072689586303 (\<lambda>k. f (Suc (Suc (Suc (Suc (Suc (Suc (Suc (Suc
            k))))))))))"
  by (rule bsp_part_one_node [where
        frd = "237922238746881 / 2 ^ 48" and
        sta = "rng_at 237922238746881 f" and
        v = "False" and
        a = "Leaf 0 0 9 7 0 0" and
        b = "Leaf 0 7 9 2 0 0" and
        sa = "True" and
        a' = "Split 0 0 9 7 0 0 (Split 0 0 3 7 0 0 (Leaf 0 0 3 2 (16766457 / 8388608) (and (int
          (f 0)) 3 + 3)) (Split 0 2 3 5 0 0 (Split 0 2 1 5 0 0 (Leaf 0 2 1 3 (10222537 /
          2097152) (and (int (f (Suc 0))) 3 + 3)) (Leaf 0 5 1 2 (1171861 / 262144) (and (int (f
          (Suc (Suc 0)))) 3 + 3))) (Leaf 1 2 2 5 (2737115 / 524288) (and (int (f (Suc (Suc (Suc
          0))))) 3 + 3)))) (Split 3 0 6 7 0 0 (Split 3 0 6 5 0 0 (Leaf 3 0 4 5 (2573897 /
          1048576) (and (int (f (Suc (Suc (Suc (Suc 0)))))) 3 + 3)) (Leaf 7 0 2 5 (3913883 /
          524288) (and (int (f (Suc (Suc (Suc (Suc (Suc 0))))))) 3 + 3))) (Leaf 3 5 6 2 (6133939
          / 1048576) (and (int (f (Suc (Suc (Suc (Suc (Suc (Suc 0)))))))) 3 + 3)))" and
        stb = "rng_at 205820847086020 (\<lambda>k. f (Suc (Suc (Suc (Suc (Suc (Suc (Suc
          k))))))))" and
        sb = "False" and
        b' = "Leaf 0 7 9 2 (13836943 / 4194304) (and (int (f (Suc (Suc (Suc (Suc (Suc (Suc (Suc
          0))))))))) 3 + 3)" and
        stc = "rng_at 116072689586303 (\<lambda>k. f (Suc (Suc (Suc (Suc (Suc (Suc (Suc (Suc
          k)))))))))"])
     (simp_all add: bsp_step bsp_seed18_floats bsp_seed18_6)

lemma bsp_process_seed18_from:
  "\<exists>b. bsp_process 18 3 0 0 9 9 terrain_bsp_cb (rng_at X f) =
     Inr (b, rng_at 116072689586303
               (\<lambda>k. f (Suc (Suc (Suc (Suc (Suc (Suc (Suc (Suc k))))))))))"
  by (simp add: bsp_process_def srand48_rng_at bsp_seed18_7)

lemma bsp_process_seed18:
  "bsp_process 18 3 0 0 9 9 terrain_bsp_cb rng_initial =
     Inr (bsp_seed18,
          rng_at 116072689586303
            (\<lambda>k. glibc_rand (Suc (Suc (Suc (Suc (Suc (Suc (Suc (Suc k))))))))))"
  using bsp_seed18_7 [of glibc_rand]
  by (simp add: bsp_process_def srand48_rng_at rng_initial_def bsp_seed18_def glibc_rand_def)

section \<open>The partition tiles the root rectangle\<close>

lemma bsp_cells_rect: "bsp_cells node = rect_cells (bsp_x node) (bsp_y node) (bsp_w node) (bsp_h node)"
  by (auto simp: bsp_cells_def rect_cells_def bsp_within_rect_def)

lemma rect_cells_split_x:
  "0 \<le> aw \<Longrightarrow> aw \<le> w \<Longrightarrow>
   rect_cells x y aw h \<union> rect_cells (x + aw) y (w - aw) h = rect_cells x y w h
   \<and> rect_cells x y aw h \<inter> rect_cells (x + aw) y (w - aw) h = {}"
  by (auto simp: rect_cells_def)

lemma rect_cells_split_y:
  "0 \<le> ah \<Longrightarrow> ah \<le> h \<Longrightarrow>
   rect_cells x y w ah \<union> rect_cells x (y + ah) w (h - ah) = rect_cells x y w h
   \<and> rect_cells x y w ah \<inter> rect_cells x (y + ah) w (h - ah) = {}"
  by (auto simp: rect_cells_def)

lemma split_at_range:
  assumes "1 \<le> d"
  shows "0 \<le> c_trunc (c_min (c_max v (of_int BSP_MIN_WIDTH)) (of_int (d - BSP_MIN_WIDTH)))"
    and "c_trunc (c_min (c_max v (of_int BSP_MIN_WIDTH)) (of_int (d - BSP_MIN_WIDTH))) \<le> d - 1"
proof -
  let ?v = "c_min (c_max v (of_int BSP_MIN_WIDTH)) (of_int (d - BSP_MIN_WIDTH))"
  have lo: "0 \<le> ?v" using assms by (simp add: c_min_def c_max_def BSP_MIN_WIDTH_def)
  have hi: "?v \<le> of_int (d - 1)" by (simp add: c_min_def BSP_MIN_WIDTH_def)
  show "0 \<le> c_trunc ?v" using lo by (simp add: c_trunc_def)
  have "\<lfloor>?v\<rfloor> \<le> \<lfloor>real_of_int (d - 1)\<rfloor>" using hi by (rule floor_mono)
  then have "\<lfloor>?v\<rfloor> \<le> d - 1" by (simp only: floor_of_int)
  then show "c_trunc ?v \<le> d - 1" using lo by (simp add: c_trunc_def)
qed

lemma bsp_vertical_pos:
  "bsp_vertical w h level = Inr v \<Longrightarrow> 0 \<le> w \<Longrightarrow> 0 \<le> h \<Longrightarrow> 1 \<le> w \<and> 1 \<le> h"
  by (cases "w = 0") (auto simp: bsp_vertical_def split: if_splits)

lemma bsp_children_tile:
  assumes ab: "bsp_children x y w h v fr = (a, b)" and w: "1 \<le> w" and h: "1 \<le> h"
  shows "0 \<le> bsp_w a \<and> 0 \<le> bsp_h a \<and> 0 \<le> bsp_w b \<and> 0 \<le> bsp_h b
     \<and> bsp_area a + bsp_area b = w * h
     \<and> bsp_cells a \<union> bsp_cells b = rect_cells x y w h
     \<and> bsp_cells a \<inter> bsp_cells b = {}"
proof (cases v)
  case True
  define aw where "aw = c_trunc (c_min (c_max (fl64 (fr * of_int w)) (of_int BSP_MIN_WIDTH)) (of_int (w - BSP_MIN_WIDTH)))"
  have r: "0 \<le> aw" "aw \<le> w - 1" unfolding aw_def using split_at_range [OF w] by simp_all
  have a: "a = Leaf x y aw h 0 0" and b: "b = Leaf (x + aw) y (w - aw) h 0 0"
    using ab True by (simp_all add: bsp_children_def Let_def aw_def)
  have "aw \<le> w" using r by simp
  with r(1) have t: "rect_cells x y aw h \<union> rect_cells (x + aw) y (w - aw) h = rect_cells x y w h
   \<and> rect_cells x y aw h \<inter> rect_cells (x + aw) y (w - aw) h = {}"
    by (rule rect_cells_split_x)
  show ?thesis using r h t by (simp add: a b bsp_area_def bsp_cells_rect algebra_simps)
next
  case False
  define ah where "ah = c_trunc (c_min (c_max (fl64 (fr * of_int h)) (of_int BSP_MIN_WIDTH)) (of_int (h - BSP_MIN_WIDTH)))"
  have r: "0 \<le> ah" "ah \<le> h - 1" unfolding ah_def using split_at_range [OF h] by simp_all
  have a: "a = Leaf x y w ah 0 0" and b: "b = Leaf x (y + ah) w (h - ah) 0 0"
    using ab False by (simp_all add: bsp_children_def Let_def ah_def)
  have "ah \<le> h" using r by simp
  with r(1) have t: "rect_cells x y w ah \<union> rect_cells x (y + ah) w (h - ah) = rect_cells x y w h
   \<and> rect_cells x y w ah \<inter> rect_cells x (y + ah) w (h - ah) = {}"
    by (rule rect_cells_split_y)
  show ?thesis using r w t by (simp add: a b bsp_area_def bsp_cells_rect algebra_simps)
qed

lemma bsp_children_leaves:
  "bsp_children x y w h v fr = (a, b) \<Longrightarrow> bsp_tiling a \<and> bsp_tiling b"
  by (auto simp: bsp_children_def Let_def split: if_splits)

lemma bsp_rect_facts:
  "bsp_rect n' = bsp_rect n \<Longrightarrow> bsp_cells n' = bsp_cells n \<and> bsp_area n' = bsp_area n"
  by (simp add: bsp_rect_def bsp_cells_rect bsp_area_def)

lemma bsp_part_one_tiling:
  assumes "bsp_part_one cb ra x y w h level st = Inr (tree, st')"
    and "cb_keeps_rect cb" and "0 \<le> w" and "0 \<le> h"
  shows "bsp_rect tree = (x, y, w, h) \<and> bsp_tiling tree"
  using assms
proof (induction cb ra x y w h level st arbitrary: tree st' rule: bsp_part_one.induct)
  case (1 cb ra x y w h level st)
  obtain fr0 st1 where d: "(fr0, st1) = drand48 st" by (metis surj_pair)
  from "1.prems"(1) obtain vertical a b sa a' st2 sb b' st3 where
    v: "bsp_vertical w h level = Inr vertical"
    and ab: "(a, b) = bsp_children x y w h vertical (clampd fr0 (fl64 0.2) (fl64 0.8))"
    and sa: "bsp_needs_split (bsp_w a) (bsp_h a) ra level = Inr sa"
    and ra: "(if sa then bsp_part_one cb ra (bsp_x a) (bsp_y a) (bsp_w a) (bsp_h a) (level + 1) st1
             else Inr (cb a level st1)) = Inr (a', st2)"
    and sb: "bsp_needs_split (bsp_w b) (bsp_h b) ra level = Inr sb"
    and rb: "(if sb then bsp_part_one cb ra (bsp_x b) (bsp_y b) (bsp_w b) (bsp_h b) (level + 1) st2
             else Inr (cb b level st2)) = Inr (b', st3)"
    and tree: "tree = Split x y w h 0 0 a' b'" and st3: "st3 = st'"
    by (subst (asm) bsp_part_one.simps) (auto simp: d [symmetric] split: sum.splits prod.splits)
  have pos: "1 \<le> w \<and> 1 \<le> h" using v "1.prems"(3,4) by (rule bsp_vertical_pos)
  have ct: "0 \<le> bsp_w a \<and> 0 \<le> bsp_h a \<and> 0 \<le> bsp_w b \<and> 0 \<le> bsp_h b
     \<and> bsp_area a + bsp_area b = w * h
     \<and> bsp_cells a \<union> bsp_cells b = rect_cells x y w h
     \<and> bsp_cells a \<inter> bsp_cells b = {}"
    using bsp_children_tile [OF ab [symmetric]] pos by simp
  have lv: "bsp_tiling a \<and> bsp_tiling b" using ab [symmetric] by (rule bsp_children_leaves)
  have A: "bsp_rect a' = bsp_rect a \<and> bsp_tiling a'"
  proof (cases sa)
    case True
    with ra have "bsp_part_one cb ra (bsp_x a) (bsp_y a) (bsp_w a) (bsp_h a) (level + 1) st1 = Inr (a', st2)"
      by simp
    from "1.IH"(1) [OF d v ab sa True this "1.prems"(2)] ct show ?thesis
      by (simp add: bsp_rect_def)
  next
    case False
    with ra have "cb a level st1 = (a', st2)" by simp
    then have "a' = fst (cb a level st1)" by simp
    with "1.prems"(2) lv show ?thesis by (simp add: cb_keeps_rect_def)
  qed
  have B: "bsp_rect b' = bsp_rect b \<and> bsp_tiling b'"
  proof (cases sb)
    case True
    with rb have "bsp_part_one cb ra (bsp_x b) (bsp_y b) (bsp_w b) (bsp_h b) (level + 1) st2 = Inr (b', st3)"
      by simp
    from "1.IH"(2) [OF d v ab sa ra refl sb True this "1.prems"(2)] ct show ?thesis
      by (simp add: bsp_rect_def)
  next
    case False
    with rb have "cb b level st2 = (b', st3)" by simp
    then have "b' = fst (cb b level st2)" by simp
    with "1.prems"(2) lv show ?thesis by (simp add: cb_keeps_rect_def)
  qed
  from A B ct show ?case
    using bsp_rect_facts [of a' a] bsp_rect_facts [of b' b]
    by (simp add: tree bsp_rect_def bsp_area_def bsp_cells_rect)
qed

lemma terrain_bsp_cb_keeps_rect: "cb_keeps_rect terrain_bsp_cb"
  by (auto simp: cb_keeps_rect_def terrain_bsp_cb_def set_amp_oct_def bsp_rect_def bsp_area_def
      bsp_cells_rect Let_def split: prod.splits bsp_part.splits)

text \<open>
  Claim C8. In a tree that \<^verbatim>\<open>bsp_process\<close> has built over a root rectangle of width and
  height at least 0, whatever the seed, the depth asked for and the state of the
  generators: at every inner node the areas of the two children add up to the area of the
  node, in the integers, and every cell of the node lies in exactly one of the two
  children. (A build that divides by zero returns no tree.)
\<close>

theorem bsp_process_tiling:
  assumes "bsp_process seed depth x y w h terrain_bsp_cb st = Inr (tree, st')"
    and "0 \<le> w" and "0 \<le> h"
  shows "bsp_tiling tree"
  using bsp_part_one_tiling [OF assms(1) [unfolded bsp_process_def] terrain_bsp_cb_keeps_rect
      assms(2,3)]
  by simp

theorem bsp_process_tiling_witness:
  "bsp_process 18 3 0 0 9 9 terrain_bsp_cb rng_initial =
     Inr (bsp_seed18,
          rng_at 116072689586303
            (\<lambda>k. glibc_rand (Suc (Suc (Suc (Suc (Suc (Suc (Suc (Suc k))))))))))
   \<and> (0::int) \<le> 9 \<and> bsp_tiling bsp_seed18"
  using bsp_process_tiling [OF bsp_process_seed18] bsp_process_seed18 by simp

section \<open>The amplitude and the octave count handed to the height synthesis\<close>

lemma height_args_eq:
  "height_args b maze mside i j = (1.5 powr maze_avg maze mside i j, OCTAVES)"
  by (simp add: height_args_def Let_def)

lemma bsp_find_seed18: "bsp_find bsp_seed18 0 0 = Leaf 0 0 3 2 (16766457 / 8388608) 6"
  by (simp add: bsp_seed18_def bsp_within_def bsp_within_rect_def bsp_within_ellipse_def
      bsp_larger_smaller_def bsp_area_def)

lemma bsp_neigh_seed18:
  "bsp_xneigh bsp_seed18 bsp_seed18 0 0 = bsp_seed18"
  "bsp_yneigh bsp_seed18 bsp_seed18 0 0 = bsp_seed18"
  by (simp_all add: bsp_xneigh_def bsp_yneigh_def bsp_xfrac_def bsp_yfrac_def bsp_seed18_def
      signed_divide_int_def)

lemma bsp_amp_seed18: "bsp_amp bsp_seed18 = 0"
  by (simp add: bsp_seed18_def)

lemma bsp_blend_seed18: "bsp_blend bsp_seed18 0 0 = 50299371 / 134217728"
  by (simp add: bsp_find_seed18 bsp_blend_def bsp_xfrac_def bsp_yfrac_def cos_interp_def
      bsp_neigh_seed18 bsp_amp_seed18 signed_divide_int_def Let_def cos_60 cos_120)

lemma maze_avg_origin: "maze_avg [c] 1 0 0 = real c"
  by (simp add: maze_avg_def MAZE_FAC_def xyarray_get_def cos_interp_def)

theorem height_args_counterexample:
  "\<not> isl (bsp_process 18 3 0 0 9 9 terrain_bsp_cb rng_initial)
   \<and> fst (projr (bsp_process 18 3 0 0 9 9 terrain_bsp_cb rng_initial)) = bsp_seed18
   \<and> bsp_oct (bsp_find bsp_seed18 0 0) = 6
   \<and> snd (height_args bsp_seed18 [1] 1 0 0) = 4
   \<and> bsp_blend bsp_seed18 0 0 < 1
   \<and> fst (height_args bsp_seed18 [1] 1 0 0) = 3 / 2"
  using bsp_blend_seed18
  by (simp add: bsp_process_seed18 bsp_find_seed18 height_args_eq OCTAVES_def maze_avg_origin)

text \<open>
  Claim C1, amended. The loop that fills the height map computes the blended amplitude of
  the partition, \<open>bsp_blend\<close>, and does not use it: \<^verbatim>\<open>get_height\<close> receives the amplitude
  \<open>1.5\<close> to the power of the maze average of the cell and the constant \<^verbatim>\<open>OCTAVES\<close>, which
  is 4. Neither depends on the tree, so two trees give the same arguments and the same
  height.
\<close>

theorem height_args_ignore_bsp:
  "height_args b maze mside i j = (1.5 powr maze_avg maze mside i j, 4)
   \<and> height_args b maze mside i j = height_args b' maze mside i j
   \<and> landscape_cell t b maze mside i j = landscape_cell t b' maze mside i j"
  by (simp add: height_args_eq landscape_cell_def OCTAVES_def)

section \<open>What the builder computes\<close>

subsection \<open>The seed heights\<close>

lemma get_rand_height_eq:
  "get_rand_height t x z st = (seed_height (t_seed t) x z, st\<lparr>x48 := seed_state (t_seed t) x z\<rparr>)"
  by (simp add: get_rand_height_def drand48_def srand48_def seed_height_def seed_state_def)

lemma fill_map0_eq:
  "fill_map0 t cs m st =
     (map0_writes (t_seed t) (t_nr_vert t) cs m,
      if cs = [] then st else st\<lparr>x48 := seed_state (t_seed t) (int (fst (last cs))) (int (snd (last cs)))\<rparr>)"
proof (induction cs arbitrary: m st)
  case Nil
  show ?case by simp
next
  case (Cons c cs)
  obtain i j where c: "c = (i, j)" by (cases c)
  show ?case by (simp add: c get_rand_height_eq Cons.IH)
qed

lemma map0_writes_length: "length (map0_writes seed n cs m) = length m"
  by (induction cs arbitrary: m) auto

lemma slot_inj_row:
  fixes i j x y n :: nat
  assumes "j < n" "y < n" "i * n + j = x * n + y"
  shows "i = x \<and> j = y"
proof -
  have "(i * n + j) div n = (x * n + y) div n" using assms(3) by simp
  then have "i = x" using assms(1,2) by simp
  with assms(3) show ?thesis by simp
qed

lemma map0_writes_nth:
  assumes "\<forall>c \<in> set cs. snd c < n" and "y < n" and "x * n + y < length m"
  shows "map0_writes seed n cs m ! (x * n + y) =
           (if (x, y) \<in> set cs then seed_height seed (int x) (int y) else m ! (x * n + y))"
  using assms
proof (induction cs arbitrary: m)
  case Nil
  show ?case by simp
next
  case (Cons c cs)
  obtain i j where c: "c = (i, j)" by (cases c)
  have j: "j < n" using Cons.prems(1) c by simp
  have same: "(i * n + j = x * n + y) = ((x, y) = (i, j))"
    using slot_inj_row [OF j Cons.prems(2)] by auto
  have len: "x * n + y < length (m[i * n + j := seed_height seed (int i) (int j)])"
    using Cons.prems(3) by simp
  have ih: "map0_writes seed n cs (m[i * n + j := seed_height seed (int i) (int j)]) ! (x * n + y) =
      (if (x, y) \<in> set cs then seed_height seed (int x) (int y)
       else m[i * n + j := seed_height seed (int i) (int j)] ! (x * n + y))"
    using Cons.prems by (intro Cons.IH) simp_all
  show ?case
  proof (cases "(x, y) = (i, j)")
    case True
    then show ?thesis using ih Cons.prems(3) by (simp add: c)
  next
    case False
    then have "i * n + j \<noteq> x * n + y" using same by simp
    then have "m[i * n + j := seed_height seed (int i) (int j)] ! (x * n + y) = m ! (x * n + y)"
      by simp
    moreover have "((x, y) \<in> set (c # cs)) = ((x, y) \<in> set cs)" using False by (auto simp: c)
    ultimately show ?thesis using ih by (simp only: c map0_writes.simps)
  qed
qed

lemma map0_built_nth:
  assumes "x < n" "y < n"
  shows "map0_writes seed n (List.product [0..<n] [0..<n]) (replicate (n * n) 0) ! (x * n + y) =
           seed_height seed (int x) (int y)"
proof -
  have "x * n + y < length (replicate (n * n) (0::real))" using assms by (simp add: slot_bound)
  moreover have "\<forall>c \<in> set (List.product [0..<n] [0..<n]). snd c < n" by auto
  ultimately have "map0_writes seed n (List.product [0..<n] [0..<n]) (replicate (n * n) 0) ! (x * n + y) =
      (if (x, y) \<in> set (List.product [0..<n] [0..<n]) then seed_height seed (int x) (int y)
       else replicate (n * n) 0 ! (x * n + y))"
    using assms(2) by (intro map0_writes_nth) simp_all
  then show ?thesis using assms by simp
qed

lemma div_mod_slot:
  fixes a b n :: nat
  assumes "b < n"
  shows "(a * n + b) div n = a" and "(a * n + b) mod n = b"
  using assms by simp_all

lemma product_last:
  assumes n: "0 < n"
  shows "last (List.product [0..<n] [0..<n]) = (n - 1, n - 1)"
proof -
  let ?k = "(n - 1) * n + (n - 1)"
  have len: "length (List.product [0..<n] [0..<n]) = n * n" by simp
  have "0 < length (List.product [0..<n] [0..<n])" using n by simp
  then have ne: "List.product [0..<n] [0..<n] \<noteq> []" by fastforce
  have k: "n * n - 1 = ?k"
    using n by (cases n) (simp_all add: algebra_simps)
  have lt: "?k < length [0..<n] * length [0..<n]" using n slot_bound [of "n - 1" n "n - 1"] by simp
  have b: "n - 1 < n" using n by simp
  have d: "?k div n = n - 1" and m: "?k mod n = n - 1"
    by (rule div_mod_slot [OF b])+
  have "last (List.product [0..<n] [0..<n]) = List.product [0..<n] [0..<n] ! (n * n - 1)"
    using last_conv_nth [OF ne] by (simp only: len)
  also have "\<dots> = List.product [0..<n] [0..<n] ! ?k" by (simp only: k)
  also have "\<dots> = ([0..<n] ! (?k div length [0..<n]), [0..<n] ! (?k mod length [0..<n]))"
    using lt by (rule product_nth)
  also have "\<dots> = ([0..<n] ! (n - 1), [0..<n] ! (n - 1))" by (simp only: length_upt diff_zero d m)
  also have "\<dots> = (n - 1, n - 1)" using n by simp
  finally show ?thesis .
qed

lemma get_mapped_built:
  assumes m: "t_map0 t = Some (map0_writes seed n (List.product [0..<n] [0..<n]) (replicate (n * n) 0))"
    and n: "t_nr_vert t = n" "0 < n"
  shows "get_mapped_rand_height t x z = seed_height seed (wrap_index n x) (wrap_index n z)"
proof -
  define x' where "x' = wrap_index n x"
  define z' where "z' = wrap_index n z"
  have r: "0 \<le> x'" "x' < int n" "0 \<le> z'" "z' < int n"
    using n(2) by (simp_all add: x'_def z'_def wrap_index_def)
  have i: "nat (x' * int n + z') = nat x' * n + nat z'"
    using r by (simp add: nat_add_distrib nat_mult_distrib)
  have "get_mapped_rand_height t x z = map0_of t ! nat (x' * int n + z')"
    by (simp add: get_mapped_rand_height_def n(1) x'_def z'_def wrap_index_def Let_def)
  also have "\<dots> = seed_height seed (int (nat x')) (int (nat z'))"
    using r by (simp add: map0_of_def m i map0_built_nth)
  finally show ?thesis using r by (simp add: x'_def z'_def)
qed

lemma cos_interp_0: "cos_interp a b 0 = a"
  by (simp add: cos_interp_def)

lemma get_interp_height_int:
  "get_interp_height t (of_int a) (of_int b) = get_avg_height t a b"
  by (simp add: get_interp_height_def cos_interp_0)

lemma maze_avg_0_8: "maze_avg [c] 1 0 8 = 0"
  by (simp add: maze_avg_def MAZE_FAC_def xyarray_get_def cos_interp_def)

lemma octaves_range: "[0..<nat OCTAVES] = [0, 1, 2, 3]"
  by code_simp

subsection \<open>A maze of one cell\<close>

lemma cell_order_1: "cell_order 1 = [(0, 0)]"
  by (simp add: cell_order_def)

lemma neigh_m1_single: "neigh_m1 [v] 1 0 0 = 0"
  by (simp add: neigh_m1_def neigh_vn1_def xyarray_get_def notnot_def)

lemma cell_aut_step_single:
  "cell_aut_step ca_test [v] 1 = [if v = 0 then 0 else (v - 1) mod 256]"
  by (simp add: cell_aut_step_def cell_order_1 cell_aut_run_def cell_aut_cell_def neigh_m1_single
      ca_test_def mask_bit_def xyarray_get_def xyarray_set_def)

lemma ca_seed_single:
  "ca_seed_cells ca_test 1 [(0, 0)] [0] (rng_at X f) =
     ([if int (next48 X div 2 ^ 17) mod 8 \<le> 4 then 4 else 0], rng_at (next48 X) f)"
  by (simp add: lrand48_rng_at xyarray_set_def ca_test_def)

lemma funpow_3: "(f ^^ 3) x = f (f (f x))"
  by (simp add: numeral_3_eq_3)

lemma cell_aut_step_thrice:
  "((\<lambda>a. cell_aut_step ca_test a 1) ^^ 3) [4] = [1]"
  "((\<lambda>a. cell_aut_step ca_test a 1) ^^ 3) [0] = [0]"
  by (simp_all add: funpow_3 cell_aut_step_single)

lemma ca_gen_maze_1:
  "ca_gen_maze ca_test 1 3 (rng_at X f) =
     ([if int (next48 X div 2 ^ 17) mod 8 \<le> 4 then 1 else 0], rng_at (next48 X) f)"
proof -
  have s: "ca_seed_cells ca_test 1 (cell_order 1) (replicate (nat (1 * 1)) 0) (rng_at X f) =
     ([if int (next48 X div 2 ^ 17) mod 8 \<le> 4 then 4 else 0], rng_at (next48 X) f)"
    using ca_seed_single [of X f] by (simp only: cell_order_1) simp
  show ?thesis
  proof (cases "int (next48 X div 2 ^ 17) mod 8 \<le> 4")
    case True
    with s show ?thesis by (simp only: ca_gen_maze_def Let_def prod.case cell_aut_step_thrice if_True)
  next
    case False
    with s show ?thesis by (simp only: ca_gen_maze_def Let_def prod.case cell_aut_step_thrice if_False)
  qed
qed

subsection \<open>The height map does not read the partition\<close>

lemma landscape_cell_eq:
  "landscape_cell t b maze mside i j =
     get_height t (int i) (int j) (1.5 powr maze_avg maze mside i j) OCTAVES
     + maze_avg maze mside i j"
  by (simp add: landscape_cell_def height_args_eq)

lemma fill_map_any_bsp: "fill_map t b maze mside = fill_map t b' maze mside"
  by (simp add: fill_map_def landscape_cell_eq)

subsection \<open>The maze reads the 48-bit state only\<close>

lemma ca_seed_cells_x48:
  "x48 st = x48 st' \<Longrightarrow>
   fst (ca_seed_cells ca side cs arr st) = fst (ca_seed_cells ca side cs arr st')
   \<and> x48 (snd (ca_seed_cells ca side cs arr st)) = x48 (snd (ca_seed_cells ca side cs arr st'))"
proof (induction cs arbitrary: arr st st')
  case Nil
  then show ?case by simp
next
  case (Cons c cs)
  obtain i j where c: "c = (i, j)" by (cases c)
  have r: "fst (lrand48 st) = fst (lrand48 st')" and s: "x48 (snd (lrand48 st)) = x48 (snd (lrand48 st'))"
    using Cons.prems by (simp_all add: lrand48_def)
  show ?case
    using Cons.IH [OF s] r by (simp add: c Let_def split_beta)
qed

lemma ca_gen_maze_x48:
  "x48 st = x48 st' \<Longrightarrow> fst (ca_gen_maze ca side steps st) = fst (ca_gen_maze ca side steps st')"
  using ca_seed_cells_x48 [of st st' ca side "cell_order side" "replicate (nat (side * side)) 0"]
  by (simp add: ca_gen_maze_def Let_def split_beta)

subsection \<open>The result of a build\<close>

lemma terrain_init_result:
  assumes "terrain_init_square_landscape st nsec x y z side nr_v = Inr (t, mz, st1)"
  shows "\<exists>b. t = (seeded_terrain nsec x y z side nr_v)
            \<lparr> t_map := Some (fill_map (seeded_terrain nsec x y z side nr_v) b
                     (fst (ca_gen_maze ca_test (int (nr_v div MAZE_FAC)) 3 st))
                     (int (nr_v div MAZE_FAC))),
              t_map0 := None \<rparr>
          \<and> mz = fold (\<lambda>ca a. cell_aut_step ca a (int (nr_v div MAZE_FAC))) ca_instors
                   (fst (ca_gen_maze ca_test (int (nr_v div MAZE_FAC)) 3 st))"
  using assms
  by (auto simp: terrain_init_square_landscape_def Let_def fill_map0_eq seeded_terrain_def
      split: prod.splits sum.splits)

subsection \<open>Two builds with the seed 18\<close>

lemma terrain_init_seed18:
  "\<exists>b. terrain_init_square_landscape (rng_at X f) 18 x y z side 9 =
     Inr ((seeded_terrain 18 x y z side 9)
            \<lparr> t_map := Some (fill_map (seeded_terrain 18 x y z side 9) b
                     [if int (next48 X div 2 ^ 17) mod 8 \<le> 4 then 1 else 0] 1),
              t_map0 := None \<rparr>,
          fold (\<lambda>ca a. cell_aut_step ca a 1) ca_instors
            [if int (next48 X div 2 ^ 17) mod 8 \<le> 4 then 1 else 0],
          rng_at (seed_state 18 8 8) (\<lambda>k. f (Suc (Suc (Suc (Suc (Suc (Suc (Suc (Suc k))))))))))"
proof -
  obtain b where b: "bsp_process 18 3 0 0 9 9 terrain_bsp_cb (rng_at (next48 X) f) =
     Inr (b, rng_at 116072689586303 (\<lambda>k. f (Suc (Suc (Suc (Suc (Suc (Suc (Suc (Suc k))))))))))"
    using bsp_process_seed18_from by blast
  have l: "last (List.product [0..<9] [0..<9]) = (8, 8)"
    using product_last [of 9] by simp
  have ne: "List.product [0..<9::nat] [0..<9::nat] \<noteq> []"
    by (simp add: upt_conv_Cons)
  show ?thesis
    by (rule exI [of _ b])
       (simp add: terrain_init_square_landscape_def MAZE_FAC_def ca_gen_maze_1 b fill_map0_eq
         Let_def l ne rng_at_x48_update seeded_terrain_def del: upt_Suc)
qed

lemma seed_state_18: "seed_state 18 8 8 = 249970525360385"
  by (simp add: seed_state_def next48_def)

lemma build18_first_eq:
  "\<exists>b. build18_first =
     Inr ((seeded_terrain 18 0 0 0 8 9)
            \<lparr> t_map := Some (fill_map (seeded_terrain 18 0 0 0 8 9) b [1] 1), t_map0 := None \<rparr>,
          fold (\<lambda>ca a. cell_aut_step ca a 1) ca_instors [1],
          rng_at 249970525360385 (\<lambda>k. glibc_rand (Suc (Suc (Suc (Suc (Suc (Suc (Suc (Suc k))))))))))"
  using terrain_init_seed18 [of 0 glibc_rand 0 0 0 8]
  by (simp add: build18_first_def rng_initial_def seed_state_18 next48_def)

lemma build18_second_eq:
  "\<exists>b. build18_second =
     Inr ((seeded_terrain 18 0 0 0 8 9)
            \<lparr> t_map := Some (fill_map (seeded_terrain 18 0 0 0 8 9) b [0] 1), t_map0 := None \<rparr>,
          fold (\<lambda>ca a. cell_aut_step ca a 1) ca_instors [0],
          rng_at 249970525360385
            (\<lambda>k. glibc_rand
                  (Suc (Suc (Suc (Suc (Suc (Suc (Suc (Suc (Suc (Suc (Suc (Suc (Suc (Suc (Suc (Suc k))))))))))))))))))"
proof -
  obtain b where f: "build18_first =
     Inr ((seeded_terrain 18 0 0 0 8 9)
            \<lparr> t_map := Some (fill_map (seeded_terrain 18 0 0 0 8 9) b [1] 1), t_map0 := None \<rparr>,
          fold (\<lambda>ca a. cell_aut_step ca a 1) ca_instors [1],
          rng_at 249970525360385 (\<lambda>k. glibc_rand (Suc (Suc (Suc (Suc (Suc (Suc (Suc (Suc k))))))))))"
    using build18_first_eq by blast
  have s: "snd (snd (projr build18_first)) =
      rng_at 249970525360385 (\<lambda>k. glibc_rand (Suc (Suc (Suc (Suc (Suc (Suc (Suc (Suc k)))))))))"
    by (simp only: f sum.sel snd_conv)
  show ?thesis
    using terrain_init_seed18 [of 249970525360385
        "\<lambda>k. glibc_rand (Suc (Suc (Suc (Suc (Suc (Suc (Suc (Suc k))))))))" 0 0 0 8]
    unfolding build18_second_def s
    by (simp add: seed_state_18 next48_def)
qed

subsection \<open>Heights of the first row\<close>

lemma seeded_terrain_18:
  "t_map0 (seeded_terrain 18 x y z side 9) =
     Some (map0_writes 18 9 (List.product [0..<9] [0..<9]) (replicate (9 * 9) 0))"
  "t_nr_vert (seeded_terrain 18 x y z side 9) = 9"
  "t_y (seeded_terrain 18 x y z side 9) = y"
  by (simp_all add: seeded_terrain_def)

lemmas mapped18 = get_mapped_built [OF seeded_terrain_18(1) seeded_terrain_18(2), simplified]

lemma avg18:
  "get_avg_height (seeded_terrain 18 x y z side 9) 0 0 = 85344235098369 / 140737488355328"
  "get_avg_height (seeded_terrain 18 x y z side 9) 0 1 = 65048840474881 / 140737488355328"
  "get_avg_height (seeded_terrain 18 x y z side 9) 0 2 = 42004409848065 / 140737488355328"
  "get_avg_height (seeded_terrain 18 x y z side 9) 0 4 = - 39530803523327 / 140737488355328"
  "get_avg_height (seeded_terrain 18 x y z side 9) 0 8 = 102890593718529 / 140737488355328"
  by (simp_all add: get_avg_height_def mapped18 wrap_index_def seed_height_def next48_def)

lemmas interp_int =
  get_interp_height_int [of _ 0 0, simplified] get_interp_height_int [of _ 0 1, simplified]
  get_interp_height_int [of _ 0 2, simplified] get_interp_height_int [of _ 0 4, simplified]
  get_interp_height_int [of _ 0 8, simplified]

lemma get_height_0_0:
  "get_height t 0 0 a OCTAVES = t_y t + get_avg_height t 0 0 * a * (15 / 8)"
  unfolding get_height_def Let_def octaves_range
  by (simp add: OCTAVES_def ROUGHNESS_def interp_int power2_eq_square power3_eq_cube algebra_simps)

lemma get_height_0_8:
  "get_height t 0 8 a OCTAVES =
     t_y t + (get_avg_height t 0 1 * a + get_avg_height t 0 2 * (a / 2)
              + get_avg_height t 0 4 * (a / 4) + get_avg_height t 0 8 * (a / 8))"
  unfolding get_height_def Let_def octaves_range
  by (simp add: OCTAVES_def ROUGHNESS_def interp_int power2_eq_square power3_eq_cube algebra_simps)

lemma cell18_0_0_live:
  "landscape_cell (seeded_terrain 18 x y z side 9) b [1] 1 0 0 =
     y + 6092290393111853 / 2251799813685248"
  by (simp add: landscape_cell_eq maze_avg_origin get_height_0_0 avg18 seeded_terrain_18)

lemma cell18_0_0_dead:
  "landscape_cell (seeded_terrain 18 x y z side 9) b [0] 1 0 0 =
     y + 1280163526475535 / 1125899906842624"
  by (simp add: landscape_cell_eq maze_avg_origin get_height_0_0 avg18 seeded_terrain_18)

lemma cell18_0_8:
  "landscape_cell (seeded_terrain 18 x y z side 9) b [c] 1 0 8 =
     y + 712237349863183 / 1125899906842624"
  by (simp add: landscape_cell_eq maze_avg_0_8 get_height_0_8 avg18 seeded_terrain_18)


lemma fill_map_nth:
  "k < t_nr_vert t * t_nr_vert t \<Longrightarrow>
   fill_map t b maze mside ! k = landscape_cell t b maze mside (k div t_nr_vert t) (k mod t_nr_vert t)"
  by (simp add: fill_map_def del: upt_Suc)

lemma fill_map18:
  "fill_map (seeded_terrain 18 x y z side 9) b [1] 1 ! 0 = y + 6092290393111853 / 2251799813685248"
  "fill_map (seeded_terrain 18 x y z side 9) b [0] 1 ! 0 = y + 1280163526475535 / 1125899906842624"
  "fill_map (seeded_terrain 18 x y z side 9) b [c] 1 ! 8 = y + 712237349863183 / 1125899906842624"
  using cell18_0_0_live [of x y z side b] cell18_0_0_dead [of x y z side b]
    cell18_0_8 [of x y z side b c]
  by (simp_all add: fill_map_nth seeded_terrain_18)

theorem terrain_init_counterexample:
  "\<not> isl build18_first \<and> \<not> isl build18_second
   \<and> t_seed (fst (projr build18_first)) = t_seed (fst (projr build18_second))
   \<and> the (t_map (fst (projr build18_first))) ! 0 > 5 / 2
   \<and> the (t_map (fst (projr build18_second))) ! 0 < 3 / 2
   \<and> t_map (fst (projr build18_first)) \<noteq> t_map (fst (projr build18_second))"
proof -
  obtain b where f: "build18_first =
     Inr ((seeded_terrain 18 0 0 0 8 9)
            \<lparr> t_map := Some (fill_map (seeded_terrain 18 0 0 0 8 9) b [1] 1), t_map0 := None \<rparr>,
          fold (\<lambda>ca a. cell_aut_step ca a 1) ca_instors [1],
          rng_at 249970525360385 (\<lambda>k. glibc_rand (Suc (Suc (Suc (Suc (Suc (Suc (Suc (Suc k))))))))))"
    using build18_first_eq by blast
  obtain b' where s: "build18_second =
     Inr ((seeded_terrain 18 0 0 0 8 9)
            \<lparr> t_map := Some (fill_map (seeded_terrain 18 0 0 0 8 9) b' [0] 1), t_map0 := None \<rparr>,
          fold (\<lambda>ca a. cell_aut_step ca a 1) ca_instors [0],
          rng_at 249970525360385
            (\<lambda>k. glibc_rand
                  (Suc (Suc (Suc (Suc (Suc (Suc (Suc (Suc (Suc (Suc (Suc (Suc (Suc (Suc (Suc (Suc k))))))))))))))))))"
    using build18_second_eq by blast
  have m1: "the (t_map (fst (projr build18_first))) ! 0 > 5 / 2"
    unfolding f using fill_map18(1) [of 0 0 0 8 b] by simp
  have m2: "the (t_map (fst (projr build18_second))) ! 0 < 3 / 2"
    unfolding s using fill_map18(2) [of 0 0 0 8 b'] by simp
  have ne: "t_map (fst (projr build18_first)) \<noteq> t_map (fst (projr build18_second))"
  proof
    assume "t_map (fst (projr build18_first)) = t_map (fst (projr build18_second))"
    with m1 m2 show False by simp
  qed
  have i: "\<not> isl build18_first" "\<not> isl build18_second" unfolding f s by simp_all
  have sd: "t_seed (fst (projr build18_first)) = t_seed (fst (projr build18_second))"
    unfolding f s by simp
  from i sd m1 m2 ne show ?thesis by simp
qed

text \<open>
  Claim C2, amended. Two builds with the same seed and the same parameters that start with
  the same 48-bit state of the generator return the same terrain, height map included, and
  the same placement map, whatever \<^verbatim>\<open>rand\<close> returns in either. The seed alone does not
  decide the terrain: the maze is drawn with \<^verbatim>\<open>lrand48\<close> before any generator is seeded.
\<close>

theorem terrain_init_same_state:
  assumes "terrain_init_square_landscape st nsec x y z side nr_v = Inr (t, mz, st1)"
    and "terrain_init_square_landscape st' nsec x y z side nr_v = Inr (t', mz', st1')"
    and "x48 st = x48 st'"
  shows "t_map t = t_map t' \<and> t = t' \<and> mz = mz'"
proof -
  have m: "fst (ca_gen_maze ca_test (int (nr_v div MAZE_FAC)) 3 st) =
           fst (ca_gen_maze ca_test (int (nr_v div MAZE_FAC)) 3 st')"
    using assms(3) by (rule ca_gen_maze_x48)
  from terrain_init_result [OF assms(1)] terrain_init_result [OF assms(2)] m
  obtain b b' where
    "t = (seeded_terrain nsec x y z side nr_v)
            \<lparr> t_map := Some (fill_map (seeded_terrain nsec x y z side nr_v) b
                     (fst (ca_gen_maze ca_test (int (nr_v div MAZE_FAC)) 3 st))
                     (int (nr_v div MAZE_FAC))),
              t_map0 := None \<rparr>"
    "t' = (seeded_terrain nsec x y z side nr_v)
            \<lparr> t_map := Some (fill_map (seeded_terrain nsec x y z side nr_v) b'
                     (fst (ca_gen_maze ca_test (int (nr_v div MAZE_FAC)) 3 st))
                     (int (nr_v div MAZE_FAC))),
              t_map0 := None \<rparr>"
    "mz = mz'"
    by auto
  then show ?thesis
    using fill_map_any_bsp [of "seeded_terrain nsec x y z side nr_v" b _ _ b'] by simp
qed

theorem terrain_init_same_state_witness:
  "\<not> isl build18_first \<and> \<not> isl build18_again
   \<and> x48 rng_initial = x48 (rng_at 0 (\<lambda>k. glibc_rand (k + 5)))
   \<and> fst (projr build18_first) = fst (projr build18_again)
   \<and> fst (snd (projr build18_first)) = fst (snd (projr build18_again))"
proof -
  obtain t mz s where f: "terrain_init_square_landscape rng_initial 18 0 0 0 8 9 = Inr (t, mz, s)"
    using terrain_init_seed18 [of 0 glibc_rand 0 0 0 8] unfolding rng_initial_def by blast
  obtain t' mz' s' where
    a: "terrain_init_square_landscape (rng_at 0 (\<lambda>k. glibc_rand (k + 5))) 18 0 0 0 8 9 =
          Inr (t', mz', s')"
    using terrain_init_seed18 [of 0 "\<lambda>k. glibc_rand (k + 5)" 0 0 0 8] by blast
  have x: "x48 rng_initial = x48 (rng_at 0 (\<lambda>k. glibc_rand (k + 5)))"
    by (simp add: rng_initial_def rng_at_def)
  from terrain_init_same_state [OF f a x] x show ?thesis
    by (simp add: build18_first_def build18_again_def f a)
qed

section \<open>The seam of the height field\<close>





end
